theory Spec2Isabelle
  imports Main
begin

section \<open>Data model\<close>

text \<open>
  The entities of \<^verbatim>\<open>iambic/okta/group/models.py\<close>. Two record types may not share a
  field name, so the fields of the live \<^verbatim>\<open>Group\<close>, of \<^verbatim>\<open>AccountChangeDetails\<close> and of
  \<^verbatim>\<open>TemplateChangeDetails\<close> carry a prefix where the name is already taken. The
  \<^verbatim>\<open>extra: Any\<close> fields are left out: no code path of the module reads them. The
  expiry fields come from \<^verbatim>\<open>ExpiryModel\<close>; \<^verbatim>\<open>force_delete\<close> is the flag that the data
  model of the specification gives every template, and the module never reads it.
\<close>

datatype error = ProviderError string

datatype UserStatus = active | provisioned | deprovisioned

record UserSimple =
  username :: string
  status :: "UserStatus option"
  user_expires_at :: "int option"
  user_deleted :: bool

record OktaGroupTemplateProperties =
  name :: string
  owner :: "string option"
  idp_name :: string
  group_id :: string
  description :: string
  members :: "UserSimple list"

record OktaGroupTemplate =
  file_path :: string
  properties :: OktaGroupTemplateProperties
  expires_at :: "int option"
  deleted :: bool
  force_delete :: bool

text \<open>
  \<^verbatim>\<open>iambic.okta.models.Group\<close>, \<^verbatim>\<open>OktaOrganization\<close>, \<^verbatim>\<open>ExecutionContext\<close> and the
  change ledger classes are imported by the module; their fields are the ones the module
  reads or writes, with the optional \<^verbatim>\<open>field/before/after\<close> of a change as the
  specification's data model lists them.
\<close>

record Group =
  g_name :: string
  g_description :: string
  g_group_id :: string
  g_idp_name :: string
  g_members :: "UserSimple list"

record OktaOrganization =
  org_idp_name :: string

record Config =
  okta_organizations :: "OktaOrganization list"

record ExecutionContext =
  execute :: bool

datatype ProposedChangeType = CREATE | UPDATE | DELETE

datatype field_value = StrVal string | MembersVal "string list"

record ProposedChange =
  change_type :: ProposedChangeType
  resource_id :: string
  resource_type :: string
  attribute :: "string option"
  current_value :: "field_value option"
  new_value :: "field_value option"

record resource_dict =
  rd_name :: string
  rd_description :: string
  rd_members :: "UserSimple list"

record AccountChangeDetails =
  account :: string
  acd_resource_id :: string
  acd_current_value :: "Group option"
  acd_new_value :: resource_dict
  proposed_changes :: "ProposedChange list"

record TemplateChangeDetails =
  tcd_resource_id :: string
  tcd_resource_type :: string
  template_path :: string
  tcd_proposed_changes :: "AccountChangeDetails list"

definition template_type :: string where
  "template_type = ''NOQ::Okta::Group''"

definition props_resource_type :: "OktaGroupTemplateProperties \<Rightarrow> string" where
  "props_resource_type p = ''okta:group''"

definition apply_resource_dict ::
  "OktaGroupTemplate \<Rightarrow> OktaOrganization \<Rightarrow> ExecutionContext \<Rightarrow> resource_dict" where
  "apply_resource_dict t okta_organization context =
     \<lparr>rd_name = name (properties t),
      rd_description = description (properties t),
      rd_members = members (properties t)\<rparr>"

section \<open>State, awaited calls and gather\<close>

text \<open>
  The helper coroutines of \<^verbatim>\<open>iambic.okta.group.utils\<close> act on the identity provider, a
  state of type \<open>'w\<close>. A helper returns its value or the exception it raised, and the
  provider state it leaves. The engine state holds the template object (\<^verbatim>\<open>self\<close>,
  which \<^verbatim>\<open>remove_expired_resources\<close> mutates), the provider, the record of the awaits
  issued so far, and whether \<^verbatim>\<open>self.delete()\<close> has removed the template file.
\<close>

datatype call =
    GetGroup OktaOrganization
  | CreateGroup OktaOrganization
  | RemoveExpiredResources
  | UpdateGroupName OktaOrganization
  | UpdateGroupDescription OktaOrganization
  | UpdateGroupMembers OktaOrganization
  | MaybeDeleteGroup OktaOrganization

text \<open>
  A step of the record is one awaited call, or one \<^verbatim>\<open>asyncio.gather\<close> with the record
  of each of its tasks: the tasks of one gather are in flight together, the steps of one
  list follow one another.
\<close>

datatype step = Call call | Gather "step list list"

record 'w engine_state =
  self :: OktaGroupTemplate
  world :: 'w
  steps :: "step list"
  file_deleted :: bool

type_synonym ('w, 'a) helper = "'w \<Rightarrow> (error + 'a) \<times> 'w"

type_synonym ('w, 'a) task = "'w engine_state \<Rightarrow> (error + 'a) \<times> 'w engine_state"

record 'w helpers =
  get_group :: "string \<Rightarrow> string \<Rightarrow> OktaOrganization \<Rightarrow> ('w, Group option) helper"
  create_group ::
    "string \<Rightarrow> string \<Rightarrow> string \<Rightarrow> OktaOrganization \<Rightarrow> ExecutionContext
      \<Rightarrow> ('w, Group option) helper"
  remove_expired_resources ::
    "OktaGroupTemplate \<Rightarrow> ExecutionContext \<Rightarrow> ('w, OktaGroupTemplate) helper"
  update_group_name ::
    "Group option \<Rightarrow> string \<Rightarrow> OktaOrganization \<Rightarrow> ExecutionContext
      \<Rightarrow> ('w, ProposedChange list) helper"
  update_group_description ::
    "Group option \<Rightarrow> string \<Rightarrow> OktaOrganization \<Rightarrow> ExecutionContext
      \<Rightarrow> ('w, ProposedChange list) helper"
  update_group_members ::
    "Group option \<Rightarrow> UserSimple list \<Rightarrow> OktaOrganization \<Rightarrow> ExecutionContext
      \<Rightarrow> ('w, ProposedChange list) helper"
  maybe_delete_group ::
    "bool \<Rightarrow> Group option \<Rightarrow> OktaOrganization \<Rightarrow> ExecutionContext
      \<Rightarrow> ('w, ProposedChange list) helper"

definition await_call :: "call \<Rightarrow> ('w, 'a) helper \<Rightarrow> ('w, 'a) task" where
  "await_call c f s =
     (case f (world s) of
        (r, w) \<Rightarrow> (r, s\<lparr>world := w, steps := steps s @ [Call c]\<rparr>))"

text \<open>
  \<^verbatim>\<open>asyncio.gather(*tasks)\<close> without \<^verbatim>\<open>return_exceptions\<close>: every task is started, in
  argument order, and none is cancelled when another raises; the values come back in
  argument order; an exception of a task is raised from the gather and the values of the
  other tasks are lost. The model runs each task as one atomic unit, in argument order,
  and raises the first exception in that order. The interleaving of the tasks of one
  gather at their own awaits, and which of several exceptions comes first in time, are
  not modelled; no statement below says in which order the calls of different tasks
  reach the provider, nor which of several errors is raised.
\<close>

fun run_tasks ::
  "('w, 'a) task list \<Rightarrow> 'w engine_state
    \<Rightarrow> ((error + 'a) \<times> step list) list \<times> 'w engine_state" where
  "run_tasks [] s = ([], s)"
| "run_tasks (t # ts) s =
     (case t (s\<lparr>steps := []\<rparr>) of
        (r, s1) \<Rightarrow>
          (case run_tasks ts s1 of
             (rs, s2) \<Rightarrow> ((r, steps s1) # rs, s2)))"

fun collect :: "(error + 'a) list \<Rightarrow> error + 'a list" where
  "collect [] = Inr []"
| "collect (Inl e # rs) = Inl e"
| "collect (Inr v # rs) = (case collect rs of Inl e \<Rightarrow> Inl e | Inr vs \<Rightarrow> Inr (v # vs))"

definition gather :: "('w, 'a) task list \<Rightarrow> ('w, 'a list) task" where
  "gather tasks s =
     (case run_tasks tasks s of
        (rs, s') \<Rightarrow>
          (collect (map fst rs), s'\<lparr>steps := steps s @ [Gather (map snd rs)]\<rparr>))"

section \<open>The per-tenant reconciler and the fan-out\<close>

definition create_change :: "OktaGroupTemplate \<Rightarrow> ProposedChange" where
  "create_change t =
     \<lparr>change_type = CREATE,
      resource_id = group_id (properties t),
      resource_type = props_resource_type (properties t),
      attribute = None, current_value = None, new_value = None\<rparr>"

text \<open>
  Lines 205 to 266 of \<^verbatim>\<open>_apply_to_account\<close>, which both branches of the existence
  test reach: prune expired resources, gather the three field updates and
  \<^verbatim>\<open>maybe_delete_group\<close>, extend the proposed changes, and in execute mode delete the
  template when it is marked deleted.
\<close>

definition reconcile_fields ::
  "'w helpers \<Rightarrow> OktaOrganization \<Rightarrow> ExecutionContext \<Rightarrow> Group option
    \<Rightarrow> AccountChangeDetails \<Rightarrow> ('w, AccountChangeDetails) task" where
  "reconcile_fields h okta_organization context current_group change_details s0 =
     (case remove_expired_resources h (self s0) context (world s0) of
        (Inl e, w1) \<Rightarrow>
          (Inl e, s0\<lparr>world := w1, steps := steps s0 @ [Call RemoveExpiredResources]\<rparr>)
      | (Inr t1, w1) \<Rightarrow>
          (let s1 = s0\<lparr>self := t1, world := w1,
                       steps := steps s0 @ [Call RemoveExpiredResources]\<rparr>;
               tasks =
                 [await_call (UpdateGroupName okta_organization)
                    (update_group_name h current_group (name (properties t1))
                       okta_organization context),
                  await_call (UpdateGroupDescription okta_organization)
                    (update_group_description h current_group (description (properties t1))
                       okta_organization context),
                  await_call (UpdateGroupMembers okta_organization)
                    (update_group_members h current_group (members (properties t1))
                       okta_organization context),
                  await_call (MaybeDeleteGroup okta_organization)
                    (maybe_delete_group h (deleted t1) current_group
                       okta_organization context)]
           in case gather tasks s1 of
                (Inl e, s2) \<Rightarrow> (Inl e, s2)
              | (Inr changes_made, s2) \<Rightarrow>
                  (let change_details1 =
                         (if list_ex (\<lambda>l. l \<noteq> []) changes_made
                          then change_details\<lparr>proposed_changes :=
                                 proposed_changes change_details @ concat changes_made\<rparr>
                          else change_details);
                       s3 = (if execute context \<and> deleted (self s2)
                             then s2\<lparr>file_deleted := True\<rparr> else s2)
                   in (Inr change_details1, s3))))"

text \<open>
  \<^verbatim>\<open>_apply_to_account\<close> (the leading underscore is not part of an Isabelle name).
  A group object is true in Python, so \<^verbatim>\<open>bool(current_group)\<close> tells whether the fetch
  returned a group.
\<close>

definition apply_to_account ::
  "'w helpers \<Rightarrow> OktaOrganization \<Rightarrow> ExecutionContext \<Rightarrow> ('w, AccountChangeDetails) task" where
  "apply_to_account h okta_organization context s =
     (let proposed_group = apply_resource_dict (self s) okta_organization context;
          change_details =
            \<lparr>account = idp_name (properties (self s)),
             acd_resource_id = group_id (properties (self s)),
             acd_current_value = None,
             acd_new_value = proposed_group,
             proposed_changes = []\<rparr>
      in case await_call (GetGroup okta_organization)
                (get_group h (group_id (properties (self s))) (name (properties (self s)))
                   okta_organization) s of
           (Inl e, s1) \<Rightarrow> (Inl e, s1)
         | (Inr current_group, s1) \<Rightarrow>
             (let change_details1 =
                    (if current_group \<noteq> None
                     then change_details\<lparr>acd_current_value := current_group\<rparr>
                     else change_details);
                  group_exists = (current_group \<noteq> None)
              in if \<not> group_exists then
                   (let change_details2 =
                          change_details1\<lparr>proposed_changes :=
                            proposed_changes change_details1 @ [create_change (self s1)]\<rparr>
                    in if \<not> execute context then (Inr change_details2, s1)
                       else
                         (case await_call (CreateGroup okta_organization)
                                 (create_group h (name (properties (self s1)))
                                    (idp_name (properties (self s1)))
                                    (description (properties (self s1)))
                                    okta_organization context) s1 of
                            (Inl e, s2) \<Rightarrow> (Inl e, s2)
                          | (Inr created_group, s2) \<Rightarrow>
                              reconcile_fields h okta_organization context created_group
                                (if created_group \<noteq> None
                                 then change_details2\<lparr>acd_current_value := created_group\<rparr>
                                 else change_details2) s2))
                 else reconcile_fields h okta_organization context current_group
                        change_details1 s1))"

text \<open>
  \<^verbatim>\<open>apply\<close>, under a name that is not an Isabelle keyword. The elements of
  \<^verbatim>\<open>proposed_changes\<close> are model objects, all true in Python, so
  \<^verbatim>\<open>any(account_change.proposed_changes)\<close> says that the list is not empty; in the same
  way \<^verbatim>\<open>any(changes_made)\<close>, over a list of lists, says that one of them is not empty.
\<close>

definition apply_template ::
  "'w helpers \<Rightarrow> Config \<Rightarrow> ExecutionContext \<Rightarrow> ('w, TemplateChangeDetails) task" where
  "apply_template h config context s =
     (let template_changes =
            \<lparr>tcd_resource_id = group_id (properties (self s)),
             tcd_resource_type = template_type,
             template_path = file_path (self s),
             tcd_proposed_changes = []\<rparr>;
          tasks = map (\<lambda>okta_organization. apply_to_account h okta_organization context)
                    (okta_organizations config)
      in case gather tasks s of
           (Inl e, s') \<Rightarrow> (Inl e, s')
         | (Inr account_changes, s') \<Rightarrow>
             (Inr (template_changes\<lparr>tcd_proposed_changes :=
                     filter (\<lambda>account_change. proposed_changes account_change \<noteq> [])
                       account_changes\<rparr>), s'))"

section \<open>The record of one run\<close>

text \<open>
  The state in which the reconciliation of the \<open>i\<close>-th configured tenant starts, and its
  outcome there: the tasks of the fan-out run in configured order, each from the state
  its predecessor left.
\<close>

fun tenant_state ::
  "'w helpers \<Rightarrow> ExecutionContext \<Rightarrow> OktaOrganization list \<Rightarrow> 'w engine_state \<Rightarrow> nat
    \<Rightarrow> 'w engine_state" where
  "tenant_state h context orgs s 0 = s\<lparr>steps := []\<rparr>"
| "tenant_state h context [] s (Suc i) = s\<lparr>steps := []\<rparr>"
| "tenant_state h context (org # orgs) s (Suc i) =
     tenant_state h context orgs (snd (apply_to_account h org context (s\<lparr>steps := []\<rparr>))) i"

definition tenant_outcome ::
  "'w helpers \<Rightarrow> ExecutionContext \<Rightarrow> OktaOrganization list \<Rightarrow> 'w engine_state \<Rightarrow> nat
    \<Rightarrow> error + AccountChangeDetails" where
  "tenant_outcome h context orgs s i =
     fst (apply_to_account h (orgs ! i) context (tenant_state h context orgs s i))"

definition tenant_outcomes ::
  "'w helpers \<Rightarrow> ExecutionContext \<Rightarrow> OktaOrganization list \<Rightarrow> 'w engine_state
    \<Rightarrow> (error + AccountChangeDetails) list" where
  "tenant_outcomes h context orgs s =
     map (tenant_outcome h context orgs s) [0..<length orgs]"

fun calls_of :: "step \<Rightarrow> call list" where
  "calls_of (Call c) = [c]"
| "calls_of (Gather tss) = concat (map (\<lambda>ts. concat (map calls_of ts)) tss)"

fun is_update :: "call \<Rightarrow> bool" where
  "is_update (UpdateGroupName org) = True"
| "is_update (UpdateGroupDescription org) = True"
| "is_update (UpdateGroupMembers org) = True"
| "is_update c = False"

fun is_delete :: "call \<Rightarrow> bool" where
  "is_delete (MaybeDeleteGroup org) = True"
| "is_delete c = False"

text \<open>
  The delete dispatch comes after the completed field-update pass when the sequence of
  steps can be cut so that no delete is dispatched before the cut and no field update
  after it. The steps of one gather are in flight together and cannot be cut.
\<close>

definition delete_after_update_pass :: "step list \<Rightarrow> bool" where
  "delete_after_update_pass tr =
     list_ex (\<lambda>n. list_all (\<lambda>st. list_all (\<lambda>c. \<not> is_delete c) (calls_of st)) (take n tr)
                 \<and> list_all (\<lambda>st. list_all (\<lambda>c. \<not> is_update c) (calls_of st)) (drop n tr))
       [0..<Suc (length tr)]"

definition field_pass :: "OktaOrganization \<Rightarrow> step" where
  "field_pass org =
     Gather [[Call (UpdateGroupName org)], [Call (UpdateGroupDescription org)],
             [Call (UpdateGroupMembers org)], [Call (MaybeDeleteGroup org)]]"

section \<open>The provider adapter and the helper coroutines\<close>

text \<open>
  The provider adapter is external (section 6 of the specification): fetch, create, one
  update per field, delete, on a provider state of type \<open>'p\<close>. Every call may fail, and
  a mutating call returns the provider state it leaves.
\<close>

datatype adapter_call =
    Fetch OktaOrganization
  | Create OktaOrganization
  | UpdateName OktaOrganization
  | UpdateDescription OktaOrganization
  | UpdateMembers OktaOrganization
  | Delete OktaOrganization

fun mutating :: "adapter_call \<Rightarrow> bool" where
  "mutating (Fetch org) = False"
| "mutating c = True"

record 'p adapter =
  adapter_fetch :: "string \<Rightarrow> OktaOrganization \<Rightarrow> 'p \<Rightarrow> error + Group option"
  adapter_create ::
    "string \<Rightarrow> string \<Rightarrow> string \<Rightarrow> OktaOrganization \<Rightarrow> 'p \<Rightarrow> (error + Group) \<times> 'p"
  adapter_update_name ::
    "Group \<Rightarrow> string \<Rightarrow> OktaOrganization \<Rightarrow> 'p \<Rightarrow> (error + ProposedChange list) \<times> 'p"
  adapter_update_description ::
    "Group \<Rightarrow> string \<Rightarrow> OktaOrganization \<Rightarrow> 'p \<Rightarrow> (error + ProposedChange list) \<times> 'p"
  adapter_update_members ::
    "Group \<Rightarrow> UserSimple list \<Rightarrow> OktaOrganization \<Rightarrow> 'p
      \<Rightarrow> (error + ProposedChange list) \<times> 'p"
  adapter_delete ::
    "Group \<Rightarrow> OktaOrganization \<Rightarrow> 'p \<Rightarrow> (error + ProposedChange list) \<times> 'p"

record 'p okta_world =
  provider :: 'p
  adapter_calls :: "adapter_call list"

definition issue ::
  "adapter_call \<Rightarrow> ('p \<Rightarrow> (error + 'a) \<times> 'p) \<Rightarrow> ('p okta_world, 'a) helper" where
  "issue c f w =
     (case f (provider w) of
        (r, p) \<Rightarrow> (r, w\<lparr>provider := p, adapter_calls := adapter_calls w @ [c]\<rparr>))"

definition name_diff :: "Group \<Rightarrow> string \<Rightarrow> ProposedChange list" where
  "name_diff g new_name =
     (if g_name g = new_name then []
      else [\<lparr>change_type = UPDATE, resource_id = g_group_id g,
             resource_type = ''okta:group'', attribute = Some ''name'',
             current_value = Some (StrVal (g_name g)),
             new_value = Some (StrVal new_name)\<rparr>])"

definition description_diff :: "Group \<Rightarrow> string \<Rightarrow> ProposedChange list" where
  "description_diff g new_description =
     (if g_description g = new_description then []
      else [\<lparr>change_type = UPDATE, resource_id = g_group_id g,
             resource_type = ''okta:group'', attribute = Some ''description'',
             current_value = Some (StrVal (g_description g)),
             new_value = Some (StrVal new_description)\<rparr>])"

definition members_diff :: "Group \<Rightarrow> UserSimple list \<Rightarrow> ProposedChange list" where
  "members_diff g new_members =
     (if set (map username (g_members g)) = set (map username new_members) then []
      else [\<lparr>change_type = UPDATE, resource_id = g_group_id g,
             resource_type = ''okta:group'', attribute = Some ''members'',
             current_value = Some (MembersVal (map username (g_members g))),
             new_value = Some (MembersVal (map username new_members))\<rparr>])"

definition delete_change :: "Group \<Rightarrow> ProposedChange" where
  "delete_change g =
     \<lparr>change_type = DELETE, resource_id = g_group_id g,
      resource_type = ''okta:group'', attribute = None,
      current_value = Some (StrVal (g_name g)), new_value = None\<rparr>"

definition no_group :: error where
  "no_group = ProviderError ''no current group''"

text \<open>
  Modelled from the spec: \<^verbatim>\<open>get_group\<close> of \<^verbatim>\<open>iambic.okta.group.utils\<close> is not among the
  sources. Section 4.4, step 1: call \<^verbatim>\<open>adapter.fetch(resourceId, tenant)\<close>; the result is
  a concrete current state or absent.
\<close>

definition spec_get_group ::
  "'p adapter \<Rightarrow> string \<Rightarrow> string \<Rightarrow> OktaOrganization
    \<Rightarrow> ('p okta_world, Group option) helper" where
  "spec_get_group A gid group_name org =
     issue (Fetch org) (\<lambda>p. (adapter_fetch A gid org p, p))"

text \<open>
  Modelled from the spec: \<^verbatim>\<open>create_group\<close> of \<^verbatim>\<open>iambic.okta.group.utils\<close> is not among
  the sources. Section 4.4, step 2: call \<^verbatim>\<open>adapter.create(desiredFields, tenant)\<close>; its
  result becomes the current state; section 6: it fails with a provider error on
  rejection.
\<close>

definition spec_create_group ::
  "'p adapter \<Rightarrow> string \<Rightarrow> string \<Rightarrow> string \<Rightarrow> OktaOrganization \<Rightarrow> ExecutionContext
    \<Rightarrow> ('p okta_world, Group option) helper" where
  "spec_create_group A group_name idp group_description org context =
     issue (Create org)
       (\<lambda>p. case adapter_create A group_name idp group_description org p of
               (Inl e, p1) \<Rightarrow> (Inl e, p1)
             | (Inr g, p1) \<Rightarrow> (Inr (Some g), p1))"

text \<open>
  Modelled from the spec: \<^verbatim>\<open>update_group_name\<close>, \<^verbatim>\<open>update_group_description\<close> and
  \<^verbatim>\<open>update_group_members\<close> of \<^verbatim>\<open>iambic.okta.group.utils\<close> are not among the sources.
  Section 4.4, step 4: compute the diff between the current and the desired value; if
  \<^verbatim>\<open>context.execute\<close>, invoke the adapter's update call and collect its list of proposed
  changes; if not, synthesize the list from the same diff without calling the adapter.
  Field reconciliation requires an existing resource (step 2).
\<close>

definition spec_update_group_name ::
  "'p adapter \<Rightarrow> Group option \<Rightarrow> string \<Rightarrow> OktaOrganization \<Rightarrow> ExecutionContext
    \<Rightarrow> ('p okta_world, ProposedChange list) helper" where
  "spec_update_group_name A current_group new_name org context w =
     (case current_group of
        None \<Rightarrow> (Inl no_group, w)
      | Some g \<Rightarrow>
          if execute context then issue (UpdateName org) (adapter_update_name A g new_name org) w
          else (Inr (name_diff g new_name), w))"

definition spec_update_group_description ::
  "'p adapter \<Rightarrow> Group option \<Rightarrow> string \<Rightarrow> OktaOrganization \<Rightarrow> ExecutionContext
    \<Rightarrow> ('p okta_world, ProposedChange list) helper" where
  "spec_update_group_description A current_group new_description org context w =
     (case current_group of
        None \<Rightarrow> (Inl no_group, w)
      | Some g \<Rightarrow>
          if execute context
          then issue (UpdateDescription org)
                 (adapter_update_description A g new_description org) w
          else (Inr (description_diff g new_description), w))"

definition spec_update_group_members ::
  "'p adapter \<Rightarrow> Group option \<Rightarrow> UserSimple list \<Rightarrow> OktaOrganization \<Rightarrow> ExecutionContext
    \<Rightarrow> ('p okta_world, ProposedChange list) helper" where
  "spec_update_group_members A current_group new_members org context w =
     (case current_group of
        None \<Rightarrow> (Inl no_group, w)
      | Some g \<Rightarrow>
          if execute context
          then issue (UpdateMembers org) (adapter_update_members A g new_members org) w
          else (Inr (members_diff g new_members), w))"

text \<open>
  Modelled from the spec: \<^verbatim>\<open>maybe_delete_group\<close> of \<^verbatim>\<open>iambic.okta.group.utils\<close> is not
  among the sources. Section 4.4, step 5: if the resource is marked deleted, then when
  \<^verbatim>\<open>execute\<close> is true call \<^verbatim>\<open>adapter.delete(current, tenant)\<close> and append its list of
  DELETE changes. Section 4.2: a plan run must reveal future deletions, so in detect mode
  the DELETE change is synthesized without calling the adapter.
\<close>

definition spec_maybe_delete_group ::
  "'p adapter \<Rightarrow> bool \<Rightarrow> Group option \<Rightarrow> OktaOrganization \<Rightarrow> ExecutionContext
    \<Rightarrow> ('p okta_world, ProposedChange list) helper" where
  "spec_maybe_delete_group A delete current_group org context w =
     (if \<not> delete then (Inr [], w)
      else case current_group of
             None \<Rightarrow> (Inl no_group, w)
           | Some g \<Rightarrow>
               if execute context then issue (Delete org) (adapter_delete A g org) w
               else (Inr [delete_change g], w))"

text \<open>
  Modelled from the spec: \<^verbatim>\<open>remove_expired_resources\<close> of \<^verbatim>\<open>iambic.core.models\<close> is not
  among the sources. Section 4.2: an entity is deleted iff \<^verbatim>\<open>now > expiresAt\<close> or its
  explicit flag is already set; expired members are removed from the in-memory desired
  state before diffing, with no provider call.
\<close>

definition evaluateLifecycle :: "int option \<Rightarrow> bool \<Rightarrow> int \<Rightarrow> bool" where
  "evaluateLifecycle expires flag now =
     (flag \<or> (case expires of None \<Rightarrow> False | Some e \<Rightarrow> e < now))"

definition pruneExpired :: "int \<Rightarrow> UserSimple list \<Rightarrow> UserSimple list" where
  "pruneExpired now ms =
     filter (\<lambda>m. \<not> evaluateLifecycle (user_expires_at m) (user_deleted m) now) ms"

definition spec_remove_expired_resources ::
  "int \<Rightarrow> OktaGroupTemplate \<Rightarrow> ExecutionContext \<Rightarrow> ('w, OktaGroupTemplate) helper" where
  "spec_remove_expired_resources now t context w =
     (Inr (t\<lparr>deleted := evaluateLifecycle (expires_at t) (deleted t) now,
            properties := (properties t)\<lparr>members := pruneExpired now (members (properties t))\<rparr>\<rparr>),
      w)"

definition spec_helpers :: "'p adapter \<Rightarrow> int \<Rightarrow> 'p okta_world helpers" where
  "spec_helpers A now =
     \<lparr>get_group = spec_get_group A,
      create_group = spec_create_group A,
      remove_expired_resources = spec_remove_expired_resources now,
      update_group_name = spec_update_group_name A,
      update_group_description = spec_update_group_description A,
      update_group_members = spec_update_group_members A,
      maybe_delete_group = spec_maybe_delete_group A\<rparr>"

section \<open>An in-memory provider and sample inputs\<close>

text \<open>
  A provider that keeps one group per organization in a list, used to run the engine on
  concrete inputs. The calls listed in \<open>failing\<close> raise; the others succeed, return the
  diff of their arguments and take effect on the list. A created group has the requested
  name and description and no members: \<^verbatim>\<open>create_group\<close> is not passed any.
\<close>

type_synonym mem_provider = "(OktaOrganization \<times> Group) list"

definition mem_set :: "OktaOrganization \<Rightarrow> (Group \<Rightarrow> Group) \<Rightarrow> mem_provider \<Rightarrow> mem_provider" where
  "mem_set org f p = map (\<lambda>(k, g). if k = org then (k, f g) else (k, g)) p"

definition guarded ::
  "adapter_call list \<Rightarrow> adapter_call \<Rightarrow> 'p \<Rightarrow> (error + 'a) \<times> 'p \<Rightarrow> (error + 'a) \<times> 'p" where
  "guarded failing c p ok =
     (if c \<in> set failing then (Inl (ProviderError ''rejected''), p) else ok)"

definition mem_adapter :: "adapter_call list \<Rightarrow> mem_provider adapter" where
  "mem_adapter failing =
     \<lparr>adapter_fetch = (\<lambda>gid org p.
        if Fetch org \<in> set failing then Inl (ProviderError ''rejected'')
        else Inr (map_of p org)),
      adapter_create = (\<lambda>group_name idp group_description org p.
        guarded failing (Create org) p
          (Inr \<lparr>g_name = group_name, g_description = group_description,
                g_group_id = idp @ ''-'' @ group_name, g_idp_name = idp, g_members = []\<rparr>,
           (org, \<lparr>g_name = group_name, g_description = group_description,
                  g_group_id = idp @ ''-'' @ group_name, g_idp_name = idp,
                  g_members = []\<rparr>) # p)),
      adapter_update_name = (\<lambda>g new_name org p.
        guarded failing (UpdateName org) p
          (Inr (name_diff g new_name), mem_set org (\<lambda>x. x\<lparr>g_name := new_name\<rparr>) p)),
      adapter_update_description = (\<lambda>g new_description org p.
        guarded failing (UpdateDescription org) p
          (Inr (description_diff g new_description),
           mem_set org (\<lambda>x. x\<lparr>g_description := new_description\<rparr>) p)),
      adapter_update_members = (\<lambda>g new_members org p.
        guarded failing (UpdateMembers org) p
          (Inr (members_diff g new_members),
           mem_set org (\<lambda>x. x\<lparr>g_members := new_members\<rparr>) p)),
      adapter_delete = (\<lambda>g org p.
        guarded failing (Delete org) p
          (Inr [delete_change g], filter (\<lambda>(k, x). k \<noteq> org) p))\<rparr>"

definition org_a :: OktaOrganization where
  "org_a = \<lparr>org_idp_name = ''a''\<rparr>"

definition org_b :: OktaOrganization where
  "org_b = \<lparr>org_idp_name = ''b''\<rparr>"

definition alice :: UserSimple where
  "alice = \<lparr>username = ''alice'', status = Some active,
            user_expires_at = None, user_deleted = False\<rparr>"

definition eng_template :: OktaGroupTemplate where
  "eng_template =
     \<lparr>file_path = ''okta/groups/dev/eng.yaml'',
      properties = \<lparr>name = ''eng'', owner = None, idp_name = ''dev'', group_id = ''dev-eng'',
                    description = ''Engineering'', members = [alice]\<rparr>,
      expires_at = None, deleted = False, force_delete = False\<rparr>"

definition eng_group :: Group where
  "eng_group =
     \<lparr>g_name = ''eng'', g_description = ''Engineering'', g_group_id = ''dev-eng'',
      g_idp_name = ''dev'', g_members = [alice]\<rparr>"

definition detect :: ExecutionContext where
  "detect = \<lparr>execute = False\<rparr>"

definition enact :: ExecutionContext where
  "enact = \<lparr>execute = True\<rparr>"

definition init_state :: "OktaGroupTemplate \<Rightarrow> 'p \<Rightarrow> 'p okta_world engine_state" where
  "init_state t p =
     \<lparr>self = t, world = \<lparr>provider = p, adapter_calls = []\<rparr>, steps = [],
      file_deleted = False\<rparr>"

definition mem_helpers :: "adapter_call list \<Rightarrow> mem_provider okta_world helpers" where
  "mem_helpers failing = spec_helpers (mem_adapter failing) 0"

definition two_orgs :: Config where
  "two_orgs = \<lparr>okta_organizations = [org_a, org_b]\<rparr>"

definition one_org :: Config where
  "one_org = \<lparr>okta_organizations = [org_a]\<rparr>"

definition retired_template :: OktaGroupTemplate where
  "retired_template = eng_template\<lparr>deleted := True\<rparr>"

text \<open>
  Between two engine states, only fetches were issued: the provider and the template file
  are as before, and the adapter calls recorded since are all fetches.
\<close>

definition only_fetched ::
  "'p okta_world engine_state \<Rightarrow> 'p okta_world engine_state \<Rightarrow> bool" where
  "only_fetched s s' \<longleftrightarrow>
     provider (world s') = provider (world s)
     \<and> file_deleted s' = file_deleted s
     \<and> take (length (adapter_calls (world s))) (adapter_calls (world s'))
         = adapter_calls (world s)
     \<and> list_all (\<lambda>c. \<not> mutating c)
         (drop (length (adapter_calls (world s))) (adapter_calls (world s')))"

definition new_calls ::
  "'p okta_world engine_state \<Rightarrow> 'p okta_world engine_state \<Rightarrow> adapter_call list" where
  "new_calls s s' = drop (length (adapter_calls (world s))) (adapter_calls (world s'))"

text \<open>
  The records of awaited steps that one run of the per-tenant reconciler can leave: the
  fetch alone; the fetch and the create; either followed by the pruning of expired
  resources; either of these followed by the gather of the field pass.
\<close>

definition tenant_records :: "OktaOrganization \<Rightarrow> step list list" where
  "tenant_records org =
     [[Call (GetGroup org)],
      [Call (GetGroup org), Call (CreateGroup org)],
      [Call (GetGroup org), Call RemoveExpiredResources],
      [Call (GetGroup org), Call (CreateGroup org), Call RemoveExpiredResources],
      [Call (GetGroup org), Call RemoveExpiredResources, field_pass org],
      [Call (GetGroup org), Call (CreateGroup org), Call RemoveExpiredResources,
       field_pass org]]"

definition retired_start :: "mem_provider okta_world engine_state" where
  "retired_start = init_state retired_template [(org_a, eng_group)]"

definition stale_group :: Group where
  "stale_group = eng_group\<lparr>g_description := ''Old'', g_members := []\<rparr>"

text \<open>
  A live group is in sync with a template when its name, its description and the user
  names of its members are those the template desires once its expired members are
  pruned. A template is settled with respect to another when it is not marked deleted,
  by flag or by expiry, and desires the same group.
\<close>

definition in_sync :: "int \<Rightarrow> OktaGroupTemplate \<Rightarrow> Group \<Rightarrow> bool" where
  "in_sync now t g \<longleftrightarrow>
     g_name g = name (properties t)
     \<and> g_description g = description (properties t)
     \<and> set (map username (g_members g))
         = set (map username (pruneExpired now (members (properties t))))"

definition settled :: "int \<Rightarrow> OktaGroupTemplate \<Rightarrow> OktaGroupTemplate \<Rightarrow> bool" where
  "settled now t t' \<longleftrightarrow>
     \<not> evaluateLifecycle (expires_at t') (deleted t') now
     \<and> group_id (properties t') = group_id (properties t)
     \<and> name (properties t') = name (properties t)
     \<and> description (properties t') = description (properties t)
     \<and> pruneExpired now (members (properties t'))
         = pruneExpired now (members (properties t))"

section \<open>Gather and the outcomes of the tenants\<close>

lemma collect_map_Inr: "collect (map Inr vs) = Inr vs"
  by (induction vs) auto

lemma collect_InrD: "collect rs = Inr vs \<Longrightarrow> rs = map Inr vs"
proof (induction rs arbitrary: vs)
  case Nil
  then show ?case by simp
next
  case (Cons r rs)
  then show ?case by (cases r) (auto split: sum.splits)
qed

lemma collect_Inr_iff: "collect rs = Inr vs \<longleftrightarrow> rs = map Inr vs"
  using collect_InrD collect_map_Inr by blast


lemma run_tasks_length: "length (fst (run_tasks ts s)) = length ts"
  by (induction ts arbitrary: s) (simp_all add: case_prod_beta)

lemma tenant_outcomes_Cons:
  "tenant_outcomes h ctx (org # orgs) s =
     fst (apply_to_account h org ctx (s\<lparr>steps := []\<rparr>))
       # tenant_outcomes h ctx orgs (snd (apply_to_account h org ctx (s\<lparr>steps := []\<rparr>)))"
  unfolding tenant_outcomes_def tenant_outcome_def
  by (simp add: map_upt_Suc del: upt_Suc)

lemma tenant_state_steps:
  "tenant_state h ctx orgs (s\<lparr>steps := x\<rparr>) i = tenant_state h ctx orgs s i"
  by (induction h ctx orgs s i rule: tenant_state.induct) auto

lemma tenant_outcomes_steps:
  "tenant_outcomes h ctx orgs (s\<lparr>steps := x\<rparr>) = tenant_outcomes h ctx orgs s"
  unfolding tenant_outcomes_def tenant_outcome_def by (simp add: tenant_state_steps)

lemma run_tasks_outcomes:
  "map fst (fst (run_tasks (map (\<lambda>org. apply_to_account h org ctx) orgs) s))
     = tenant_outcomes h ctx orgs s"
proof (induction orgs arbitrary: s)
  case Nil
  then show ?case by (simp add: tenant_outcomes_def)
next
  case (Cons org orgs)
  show ?case
    by (simp add: tenant_outcomes_Cons Cons.IH case_prod_beta tenant_outcomes_steps)
qed

lemma apply_template_outcomes:
  "fst (apply_template h config ctx s) =
     (case collect (tenant_outcomes h ctx (okta_organizations config) s) of
        Inl e \<Rightarrow> Inl e
      | Inr account_changes \<Rightarrow>
          Inr \<lparr>tcd_resource_id = group_id (properties (self s)),
               tcd_resource_type = template_type,
               template_path = file_path (self s),
               tcd_proposed_changes =
                 filter (\<lambda>ac. proposed_changes ac \<noteq> []) account_changes\<rparr>)"
  unfolding apply_template_def gather_def
  by (simp add: run_tasks_outcomes[symmetric] split: prod.splits sum.splits)

lemma pair_projr: "\<not> isl (fst p) \<Longrightarrow> p = (Inr (projr (fst p)), snd p)"
  by (cases p; cases "fst p") auto

section \<open>Evaluation on the sample inputs\<close>

lemma pruneExpired_Nil: "pruneExpired now [] = []"
  by (simp add: pruneExpired_def)

lemma pruneExpired_Cons:
  "pruneExpired now (m # ms) =
     (if evaluateLifecycle (user_expires_at m) (user_deleted m) now
      then pruneExpired now ms else m # pruneExpired now ms)"
  by (simp add: pruneExpired_def)

lemmas engine_defs = apply_template_def apply_to_account_def reconcile_fields_def gather_def
  await_call_def create_change_def apply_resource_dict_def template_type_def
  props_resource_type_def

lemmas helper_defs = spec_helpers_def spec_get_group_def spec_create_group_def
  spec_update_group_name_def spec_update_group_description_def spec_update_group_members_def
  spec_maybe_delete_group_def spec_remove_expired_resources_def issue_def
  name_diff_def description_diff_def members_diff_def delete_change_def
  evaluateLifecycle_def pruneExpired_Nil pruneExpired_Cons

lemmas sample_defs = mem_helpers_def mem_adapter_def guarded_def mem_set_def init_state_def
  eng_template_def eng_group_def org_a_def org_b_def alice_def detect_def enact_def
  two_orgs_def

lemma sample_detect_isr:
  "\<not> isl (fst (apply_template (mem_helpers []) two_orgs detect
                  (init_state eng_template [(org_a, eng_group)])))"
  by (simp add: engine_defs helper_defs sample_defs)

lemma sample_detect_changes:
  "map (map change_type \<circ> proposed_changes)
     (tcd_proposed_changes (projr (fst (apply_template (mem_helpers []) two_orgs detect
        (init_state eng_template [(org_a, eng_group)]))))) = [[CREATE]]"
  by (simp add: engine_defs helper_defs sample_defs)

section \<open>Create gating\<close>

text \<open>
  Claim C4. When the fetch reports the group absent and \<^verbatim>\<open>execute\<close> is false, the
  per-tenant reconciler returns change details whose proposed changes are exactly one
  change, of type CREATE, and the only call it has awaited is the fetch: no create, no
  field update and no delete is issued for the tenant.
\<close>

theorem create_gating:
  assumes "get_group h (group_id (properties (self s))) (name (properties (self s))) org (world s)
             = (Inr None, w)"
      and "\<not> execute ctx"
  shows "\<exists>cd. apply_to_account h org ctx s
                = (Inr cd, s\<lparr>world := w, steps := steps s @ [Call (GetGroup org)]\<rparr>)
              \<and> proposed_changes cd = [create_change (self s)]
              \<and> change_type (create_change (self s)) = CREATE"
  using assms by (simp add: apply_to_account_def await_call_def create_change_def)

theorem create_gating_witness:
  "map change_type (proposed_changes (projr (fst
      (apply_to_account (mem_helpers []) org_a detect (init_state eng_template [])))))
     = [CREATE]
   \<and> steps (snd (apply_to_account (mem_helpers []) org_a detect (init_state eng_template [])))
     = [Call (GetGroup org_a)]"
proof -
  have g: "get_group (mem_helpers [])
             (group_id (properties (self (init_state eng_template []))))
             (name (properties (self (init_state eng_template [])))) org_a
             (world (init_state eng_template []))
           = (Inr None, \<lparr>provider = [], adapter_calls = [Fetch org_a]\<rparr>)"
    by (simp add: helper_defs sample_defs)
  have d: "\<not> execute detect" by (simp add: detect_def)
  from create_gating [OF g d] show ?thesis by (auto simp: init_state_def)
qed

section \<open>Failures\<close>

text \<open>
  Claim C7, as stated, fails: when the group is absent, \<^verbatim>\<open>execute\<close> is true and the
  create call is rejected, the reconciler of the tenant returns no change details at all,
  so the CREATE change it had built is lost, and the run over two tenants, the second of
  which has nothing wrong, raises the same error.
\<close>

theorem create_failure_counterexample:
  "fst (apply_to_account (mem_helpers [Create org_a]) org_a enact (init_state eng_template []))
     = Inl (ProviderError ''rejected'')
   \<and> fst (apply_template (mem_helpers [Create org_a]) two_orgs enact
            (init_state eng_template [(org_b, eng_group)]))
     = Inl (ProviderError ''rejected'')"
  by (simp add: engine_defs helper_defs sample_defs)

text \<open>
  Claim C7, amended. When the fetch reports the group absent, \<^verbatim>\<open>execute\<close> is true and
  \<^verbatim>\<open>create_group\<close> raises, the per-tenant reconciler raises that error: it has awaited
  the fetch and the create and nothing else (the remaining steps of the tenant are
  skipped), and it returns no change details.
\<close>

theorem create_failure_propagates:
  assumes "get_group h (group_id (properties (self s))) (name (properties (self s))) org (world s)
             = (Inr None, w1)"
      and "execute ctx"
      and "create_group h (name (properties (self s))) (idp_name (properties (self s)))
             (description (properties (self s))) org ctx w1 = (Inl e, w2)"
  shows "apply_to_account h org ctx s
           = (Inl e, s\<lparr>world := w2,
                       steps := steps s @ [Call (GetGroup org), Call (CreateGroup org)]\<rparr>)"
  using assms by (simp add: apply_to_account_def await_call_def)

theorem create_failure_propagates_witness:
  "apply_to_account (mem_helpers [Create org_a]) org_a enact (init_state eng_template [])
     = (Inl (ProviderError ''rejected''),
        (init_state eng_template [])
          \<lparr>world := \<lparr>provider = [], adapter_calls = [Fetch org_a, Create org_a]\<rparr>,
           steps := [Call (GetGroup org_a), Call (CreateGroup org_a)]\<rparr>)"
proof -
  have g: "get_group (mem_helpers [Create org_a])
             (group_id (properties (self (init_state eng_template []))))
             (name (properties (self (init_state eng_template [])))) org_a
             (world (init_state eng_template []))
           = (Inr None, \<lparr>provider = [], adapter_calls = [Fetch org_a]\<rparr>)"
    by (simp add: helper_defs sample_defs)
  have x: "execute enact" by (simp add: enact_def)
  have c: "create_group (mem_helpers [Create org_a])
             (name (properties (self (init_state eng_template []))))
             (idp_name (properties (self (init_state eng_template []))))
             (description (properties (self (init_state eng_template [])))) org_a enact
             \<lparr>provider = [], adapter_calls = [Fetch org_a]\<rparr>
           = (Inl (ProviderError ''rejected''),
              \<lparr>provider = [], adapter_calls = [Fetch org_a, Create org_a]\<rparr>)"
    by (simp add: helper_defs sample_defs)
  from create_failure_propagates [OF g x c] show ?thesis by (simp add: init_state_def)
qed

section \<open>The report\<close>

text \<open>
  Claim C9. The tenant changes of a returned report are exactly the change details of
  the configured tenants whose list of proposed changes is not empty; those with an empty
  list are left out.
\<close>

theorem report_only_nonempty:
  assumes "apply_template h config ctx s = (Inr report, s')"
  shows "set (tcd_proposed_changes report) =
           {ac. Inr ac \<in> set (tenant_outcomes h ctx (okta_organizations config) s)
                \<and> proposed_changes ac \<noteq> []}"
proof -
  from assms have "fst (apply_template h config ctx s) = Inr report" by simp
  then obtain acs
    where c: "collect (tenant_outcomes h ctx (okta_organizations config) s) = Inr acs"
      and r: "tcd_proposed_changes report = filter (\<lambda>ac. proposed_changes ac \<noteq> []) acs"
    by (auto simp: apply_template_outcomes split: sum.splits)
  from c have "tenant_outcomes h ctx (okta_organizations config) s = map Inr acs"
    by (simp add: collect_Inr_iff)
  with r show ?thesis by auto
qed

theorem report_only_nonempty_witness:
  "set (tcd_proposed_changes (projr (fst (apply_template (mem_helpers []) two_orgs detect
          (init_state eng_template [(org_a, eng_group)])))))
     = {ac. Inr ac \<in> set (tenant_outcomes (mem_helpers []) detect (okta_organizations two_orgs)
                            (init_state eng_template [(org_a, eng_group)]))
            \<and> proposed_changes ac \<noteq> []}
   \<and> length (tcd_proposed_changes (projr (fst (apply_template (mem_helpers []) two_orgs detect
          (init_state eng_template [(org_a, eng_group)]))))) = 1"
  using report_only_nonempty [OF pair_projr [OF sample_detect_isr]]
    arg_cong [OF sample_detect_changes, of length]
  by simp

text \<open>
  Claim C10. The tenant changes of a returned report are the outcomes of the configured
  tenants, in the order of the configured list, restricted to those with a non-empty
  list of proposed changes.
\<close>

theorem report_in_configured_order:
  assumes "apply_template h config ctx s = (Inr report, s')"
  shows "tcd_proposed_changes report =
           filter (\<lambda>ac. proposed_changes ac \<noteq> [])
             (map (\<lambda>i. projr (tenant_outcome h ctx (okta_organizations config) s i))
                [0..<length (okta_organizations config)])
         \<and> list_all (\<lambda>i. \<not> isl (tenant_outcome h ctx (okta_organizations config) s i))
             [0..<length (okta_organizations config)]"
proof -
  let ?orgs = "okta_organizations config"
  from assms have "fst (apply_template h config ctx s) = Inr report" by simp
  then obtain acs where c: "collect (tenant_outcomes h ctx ?orgs s) = Inr acs"
    and r: "tcd_proposed_changes report = filter (\<lambda>ac. proposed_changes ac \<noteq> []) acs"
    by (auto simp: apply_template_outcomes split: sum.splits)
  from c have m: "tenant_outcomes h ctx ?orgs s = map Inr acs"
    by (simp add: collect_Inr_iff)
  then have "map projr (tenant_outcomes h ctx ?orgs s) = acs"
    by (simp add: comp_def)
  then have a: "acs = map (\<lambda>i. projr (tenant_outcome h ctx ?orgs s i)) [0..<length ?orgs]"
    by (simp add: tenant_outcomes_def comp_def)
  have "\<forall>r \<in> set (tenant_outcomes h ctx ?orgs s). \<not> isl r"
    using m by auto
  then have "list_all (\<lambda>i. \<not> isl (tenant_outcome h ctx ?orgs s i)) [0..<length ?orgs]"
    by (simp add: tenant_outcomes_def list_all_iff)
  with r a show ?thesis by simp
qed

theorem report_in_configured_order_witness:
  "tcd_proposed_changes (projr (fst (apply_template (mem_helpers []) two_orgs detect
          (init_state eng_template [(org_a, eng_group)]))))
     = filter (\<lambda>ac. proposed_changes ac \<noteq> [])
         (map (\<lambda>i. projr (tenant_outcome (mem_helpers []) detect (okta_organizations two_orgs)
                            (init_state eng_template [(org_a, eng_group)]) i))
            [0..<length (okta_organizations two_orgs)])"
  using report_in_configured_order [OF pair_projr [OF sample_detect_isr]]
  by simp

section \<open>The steps of one tenant\<close>

lemma gather4:
  assumes "f1 (world s) = (r1, w1)" "f2 w1 = (r2, w2)" "f3 w2 = (r3, w3)" "f4 w3 = (r4, w4)"
  shows "gather [await_call c1 f1, await_call c2 f2, await_call c3 f3, await_call c4 f4] s
           = (collect [r1, r2, r3, r4],
              s\<lparr>world := w4,
                steps := steps s @ [Gather [[Call c1], [Call c2], [Call c3], [Call c4]]]\<rparr>)"
  using assms by (simp add: gather_def await_call_def)

lemma reconcile_fields_expiry_fails:
  assumes "remove_expired_resources h (self s0) ctx (world s0) = (Inl e, w0)"
  shows "reconcile_fields h org ctx cg cd s0
           = (Inl e, s0\<lparr>world := w0, steps := steps s0 @ [Call RemoveExpiredResources]\<rparr>)"
  using assms by (simp add: reconcile_fields_def)

lemma reconcile_fields_run:
  assumes "remove_expired_resources h (self s0) ctx (world s0) = (Inr t1, w0)"
      and "update_group_name h cg (name (properties t1)) org ctx w0 = (r1, w1)"
      and "update_group_description h cg (description (properties t1)) org ctx w1 = (r2, w2)"
      and "update_group_members h cg (members (properties t1)) org ctx w2 = (r3, w3)"
      and "maybe_delete_group h (deleted t1) cg org ctx w3 = (r4, w4)"
  shows "reconcile_fields h org ctx cg cd s0 =
           (case collect [r1, r2, r3, r4] of
              Inl e \<Rightarrow>
                (Inl e, s0\<lparr>self := t1, world := w4,
                           steps := steps s0 @ [Call RemoveExpiredResources, field_pass org]\<rparr>)
            | Inr changes_made \<Rightarrow>
                (Inr (if list_ex (\<lambda>l. l \<noteq> []) changes_made
                      then cd\<lparr>proposed_changes := proposed_changes cd @ concat changes_made\<rparr>
                      else cd),
                 if execute ctx \<and> deleted t1
                 then s0\<lparr>self := t1, world := w4,
                         steps := steps s0 @ [Call RemoveExpiredResources, field_pass org],
                         file_deleted := True\<rparr>
                 else s0\<lparr>self := t1, world := w4,
                         steps := steps s0 @ [Call RemoveExpiredResources, field_pass org]\<rparr>))"
proof -
  let ?s1 = "s0\<lparr>self := t1, world := w0, steps := steps s0 @ [Call RemoveExpiredResources]\<rparr>"
  have a1: "update_group_name h cg (name (properties t1)) org ctx (world ?s1) = (r1, w1)"
    by (simp add: assms)
  have g: "gather
        [await_call (UpdateGroupName org) (update_group_name h cg (name (properties t1)) org ctx),
         await_call (UpdateGroupDescription org)
           (update_group_description h cg (description (properties t1)) org ctx),
         await_call (UpdateGroupMembers org)
           (update_group_members h cg (members (properties t1)) org ctx),
         await_call (MaybeDeleteGroup org) (maybe_delete_group h (deleted t1) cg org ctx)] ?s1
      = (collect [r1, r2, r3, r4],
         ?s1\<lparr>world := w4, steps := steps ?s1 @ [field_pass org]\<rparr>)"
    unfolding field_pass_def
    apply (rule gather4)
       apply (rule a1)
      apply (rule assms(3))
     apply (rule assms(4))
    apply (rule assms(5))
    done
  show ?thesis
    unfolding reconcile_fields_def
    by (auto simp: assms(1) Let_def g split: sum.splits)
qed


lemma apply_to_account_fetch_fails:
  assumes "get_group h (group_id (properties (self s))) (name (properties (self s))) org (world s)
             = (Inl e, w)"
  shows "apply_to_account h org ctx s
           = (Inl e, s\<lparr>world := w, steps := steps s @ [Call (GetGroup org)]\<rparr>)"
  using assms by (simp add: apply_to_account_def await_call_def)

lemma apply_to_account_absent_detect:
  assumes "get_group h (group_id (properties (self s))) (name (properties (self s))) org (world s)
             = (Inr None, w)"
      and "\<not> execute ctx"
  shows "apply_to_account h org ctx s
           = (Inr \<lparr>account = idp_name (properties (self s)),
                   acd_resource_id = group_id (properties (self s)),
                   acd_current_value = None,
                   acd_new_value = apply_resource_dict (self s) org ctx,
                   proposed_changes = [create_change (self s)]\<rparr>,
              s\<lparr>world := w, steps := steps s @ [Call (GetGroup org)]\<rparr>)"
  using assms by (simp add: apply_to_account_def await_call_def)

lemma apply_to_account_create_fails:
  assumes "get_group h (group_id (properties (self s))) (name (properties (self s))) org (world s)
             = (Inr None, w1)"
      and "execute ctx"
      and "create_group h (name (properties (self s))) (idp_name (properties (self s)))
             (description (properties (self s))) org ctx w1 = (Inl e, w2)"
  shows "apply_to_account h org ctx s
           = (Inl e, s\<lparr>world := w2,
                       steps := steps s @ [Call (GetGroup org), Call (CreateGroup org)]\<rparr>)"
  using assms by (simp add: apply_to_account_def await_call_def)

lemma apply_to_account_created:
  assumes "get_group h (group_id (properties (self s))) (name (properties (self s))) org (world s)
             = (Inr None, w1)"
      and "execute ctx"
      and "create_group h (name (properties (self s))) (idp_name (properties (self s)))
             (description (properties (self s))) org ctx w1 = (Inr cg, w2)"
  shows "apply_to_account h org ctx s
           = reconcile_fields h org ctx cg
               \<lparr>account = idp_name (properties (self s)),
                acd_resource_id = group_id (properties (self s)),
                acd_current_value = cg,
                acd_new_value = apply_resource_dict (self s) org ctx,
                proposed_changes = [create_change (self s)]\<rparr>
               (s\<lparr>world := w2,
                  steps := steps s @ [Call (GetGroup org), Call (CreateGroup org)]\<rparr>)"
  using assms by (cases cg) (simp_all add: apply_to_account_def await_call_def)

lemma apply_to_account_present:
  assumes "get_group h (group_id (properties (self s))) (name (properties (self s))) org (world s)
             = (Inr (Some g), w)"
  shows "apply_to_account h org ctx s
           = reconcile_fields h org ctx (Some g)
               \<lparr>account = idp_name (properties (self s)),
                acd_resource_id = group_id (properties (self s)),
                acd_current_value = Some g,
                acd_new_value = apply_resource_dict (self s) org ctx,
                proposed_changes = []\<rparr>
               (s\<lparr>world := w, steps := steps s @ [Call (GetGroup org)]\<rparr>)"
  using assms by (simp add: apply_to_account_def await_call_def)


lemma reconcile_fields_steps:
  "steps (snd (reconcile_fields h org ctx cg cd s0))
     = steps s0 @ [Call RemoveExpiredResources]
   \<or> steps (snd (reconcile_fields h org ctx cg cd s0))
     = steps s0 @ [Call RemoveExpiredResources, field_pass org]"
proof -
  obtain r0 w0 where e0: "remove_expired_resources h (self s0) ctx (world s0) = (r0, w0)"
    by force
  show ?thesis
  proof (cases r0)
    case (Inl e)
    with e0 show ?thesis by (simp add: reconcile_fields_expiry_fails)
  next
    case (Inr t1)
    obtain r1 w1 where e1: "update_group_name h cg (name (properties t1)) org ctx w0 = (r1, w1)"
      by force
    obtain r2 w2
      where e2: "update_group_description h cg (description (properties t1)) org ctx w1 = (r2, w2)"
      by force
    obtain r3 w3
      where e3: "update_group_members h cg (members (properties t1)) org ctx w2 = (r3, w3)"
      by force
    obtain r4 w4 where e4: "maybe_delete_group h (deleted t1) cg org ctx w3 = (r4, w4)"
      by force
    from reconcile_fields_run [OF e0 [unfolded Inr] e1 e2 e3 e4, of cd]
    show ?thesis by (simp split: sum.splits)
  qed
qed

lemma apply_to_account_steps:
  "take (length (steps s)) (steps (snd (apply_to_account h org ctx s))) = steps s
   \<and> drop (length (steps s)) (steps (snd (apply_to_account h org ctx s)))
       \<in> set (tenant_records org)"
proof -
  let ?gid = "group_id (properties (self s))" and ?nm = "name (properties (self s))"
  obtain r w where g: "get_group h ?gid ?nm org (world s) = (r, w)"
    by force
  show ?thesis
  proof (cases r)
    case (Inl e)
    with g show ?thesis by (simp add: apply_to_account_fetch_fails tenant_records_def)
  next
    case (Inr current_group)
    show ?thesis
    proof (cases current_group)
      case (Some grp)
      let ?s1 = "s\<lparr>world := w, steps := steps s @ [Call (GetGroup org)]\<rparr>"
      let ?cd = "\<lparr>account = idp_name (properties (self s)),
                 acd_resource_id = group_id (properties (self s)),
                 acd_current_value = Some grp,
                 acd_new_value = apply_resource_dict (self s) org ctx,
                 proposed_changes = []\<rparr>"
      from g Inr Some have e: "apply_to_account h org ctx s
          = reconcile_fields h org ctx (Some grp) ?cd ?s1"
        by (simp add: apply_to_account_present)
      from reconcile_fields_steps [of h org ctx "Some grp" ?cd ?s1]
      show ?thesis unfolding e by (auto simp: tenant_records_def)
    next
      case None
      show ?thesis
      proof (cases "execute ctx")
        case False
        with g Inr None show ?thesis
          by (simp add: apply_to_account_absent_detect tenant_records_def)
      next
        case True
        obtain r2 w2 where c: "create_group h ?nm (idp_name (properties (self s)))
             (description (properties (self s))) org ctx w = (r2, w2)"
          by force
        show ?thesis
        proof (cases r2)
          case (Inl e)
          with g Inr None True c show ?thesis
            by (simp add: apply_to_account_create_fails tenant_records_def)
        next
          case created: (Inr cg)
          let ?s2 = "s\<lparr>world := w2,
                       steps := steps s @ [Call (GetGroup org), Call (CreateGroup org)]\<rparr>"
          let ?cd = "\<lparr>account = idp_name (properties (self s)),
                     acd_resource_id = group_id (properties (self s)),
                     acd_current_value = cg,
                     acd_new_value = apply_resource_dict (self s) org ctx,
                     proposed_changes = [create_change (self s)]\<rparr>"
          from g Inr None True c created
          have e: "apply_to_account h org ctx s = reconcile_fields h org ctx cg ?cd ?s2"
            by (simp add: apply_to_account_created)
          from reconcile_fields_steps [of h org ctx cg ?cd ?s2]
          show ?thesis unfolding e by (auto simp: tenant_records_def)
        qed
      qed
    qed
  qed
qed

text \<open>
  Claim C6, amended. Within the reconciliation of one tenant, \<^verbatim>\<open>maybe_delete_group\<close> is
  dispatched as the last task of the same gather as the three field updates, after the
  fetch, the create (if any) and the pruning of expired resources have completed; the
  field updates and the deletion are in flight together, and no delete is dispatched in
  any other step.
\<close>

theorem delete_in_field_gather:
  "take (length (steps s)) (steps (snd (apply_to_account h org ctx s))) = steps s
   \<and> drop (length (steps s)) (steps (snd (apply_to_account h org ctx s)))
       \<in> set (tenant_records org)"
  by (rule apply_to_account_steps)

theorem delete_in_field_gather_witness:
  "drop (length (steps retired_start))
     (steps (snd (apply_to_account (mem_helpers []) org_a enact retired_start)))
     = [Call (GetGroup org_a), Call RemoveExpiredResources, field_pass org_a]
   \<and> [Call (GetGroup org_a), Call RemoveExpiredResources, field_pass org_a]
       \<in> set (tenant_records org_a)"
proof -
  have "drop (length (steps retired_start))
          (steps (snd (apply_to_account (mem_helpers []) org_a enact retired_start)))
        = [Call (GetGroup org_a), Call RemoveExpiredResources, field_pass org_a]"
    by (simp add: retired_start_def retired_template_def field_pass_def engine_defs
        helper_defs sample_defs)
  with delete_in_field_gather [of retired_start "mem_helpers []" org_a enact]
  show ?thesis by simp
qed

lemma retired_run_steps:
  "steps (snd (apply_to_account (mem_helpers []) org_a enact retired_start))
     = [Call (GetGroup org_a), Call RemoveExpiredResources, field_pass org_a]"
  by (simp add: retired_start_def retired_template_def field_pass_def engine_defs helper_defs sample_defs)

text \<open>
  Claim C6, as stated, fails: for a template marked deleted whose group exists, in
  execute mode, the delete is dispatched inside the gather that holds the field updates,
  so the record of steps cannot be cut between the field-update pass and the delete; the
  provider delete is in fact issued in that run.
\<close>

theorem delete_dispatch_counterexample:
  "\<not> delete_after_update_pass
       (steps (snd (apply_to_account (mem_helpers []) org_a enact retired_start)))
   \<and> Delete org_a \<in> set (adapter_calls (world (snd
         (apply_to_account (mem_helpers []) org_a enact retired_start))))"
  apply (simp add: retired_run_steps)
  apply (simp add:  delete_after_update_pass_def field_pass_def)
  apply (simp add: retired_start_def retired_template_def field_pass_def engine_defs helper_defs sample_defs)
  done


section \<open>The fan-out when a tenant fails\<close>






section \<open>Detect mode\<close>

lemma only_fetched_iff:
  "only_fetched s s' \<longleftrightarrow>
     provider (world s') = provider (world s) \<and> file_deleted s' = file_deleted s
     \<and> (\<exists>cs. adapter_calls (world s') = adapter_calls (world s) @ cs
              \<and> list_all (\<lambda>c. \<not> mutating c) cs)"
  unfolding only_fetched_def
  by (metis append_eq_conv_conj append_take_drop_id)

lemma only_fetched_refl: "only_fetched s s"
  by (simp add: only_fetched_iff)

lemma only_fetched_trans: "only_fetched s s1 \<Longrightarrow> only_fetched s1 s2 \<Longrightarrow> only_fetched s s2"
  unfolding only_fetched_iff by auto

lemma only_fetched_steps_l: "only_fetched (s\<lparr>steps := x\<rparr>) s' = only_fetched s s'"
  by (simp add: only_fetched_def)

lemma only_fetched_steps_r: "only_fetched s (s'\<lparr>steps := x\<rparr>) = only_fetched s s'"
  by (simp add: only_fetched_def)

lemma run_tasks_only_fetched:
  assumes "\<And>t s. t \<in> set ts \<Longrightarrow> only_fetched s (snd (t s))"
  shows "only_fetched s (snd (run_tasks ts s))"
  using assms
proof (induction ts arbitrary: s)
  case Nil
  then show ?case by (simp add: only_fetched_refl)
next
  case (Cons t ts)
  have 1: "only_fetched s (snd (t (s\<lparr>steps := []\<rparr>)))"
    using Cons.prems[of t "s\<lparr>steps := []\<rparr>"] by (simp add: only_fetched_steps_l)
  have 2: "only_fetched (snd (t (s\<lparr>steps := []\<rparr>)))
             (snd (run_tasks ts (snd (t (s\<lparr>steps := []\<rparr>)))))"
    by (rule Cons.IH) (simp add: Cons.prems)
  show ?case
    using only_fetched_trans[OF 1 2] by (simp add: case_prod_beta)
qed

lemma gather_only_fetched:
  assumes "\<And>t s. t \<in> set ts \<Longrightarrow> only_fetched s (snd (t s))"
  shows "only_fetched s (snd (gather ts s))"
proof -
  have "only_fetched s (snd (run_tasks ts s))"
    by (rule run_tasks_only_fetched) (rule assms)
  then show ?thesis
    by (simp add: gather_def case_prod_beta only_fetched_steps_r)
qed

lemma spec_get_group_eq:
  "get_group (spec_helpers A now) gid nm org w
     = (adapter_fetch A gid org (provider w),
        w\<lparr>adapter_calls := adapter_calls w @ [Fetch org]\<rparr>)"
  by (simp add: spec_helpers_def spec_get_group_def issue_def)

lemma spec_remove_expired_eq:
  "remove_expired_resources (spec_helpers A now) t ctx w
     = (Inr (t\<lparr>deleted := evaluateLifecycle (expires_at t) (deleted t) now,
               properties := (properties t)
                 \<lparr>members := pruneExpired now (members (properties t))\<rparr>\<rparr>), w)"
  by (simp add: spec_helpers_def spec_remove_expired_resources_def)

lemma spec_detect_name:
  "\<not> execute ctx \<Longrightarrow>
   update_group_name (spec_helpers A now) (Some g) v org ctx w = (Inr (name_diff g v), w)"
  by (simp add: spec_helpers_def spec_update_group_name_def)

lemma spec_detect_description:
  "\<not> execute ctx \<Longrightarrow>
   update_group_description (spec_helpers A now) (Some g) v org ctx w
     = (Inr (description_diff g v), w)"
  by (simp add: spec_helpers_def spec_update_group_description_def)

lemma spec_detect_members:
  "\<not> execute ctx \<Longrightarrow>
   update_group_members (spec_helpers A now) (Some g) v org ctx w = (Inr (members_diff g v), w)"
  by (simp add: spec_helpers_def spec_update_group_members_def)

lemma spec_detect_delete:
  "\<not> execute ctx \<Longrightarrow>
   maybe_delete_group (spec_helpers A now) del (Some g) org ctx w
     = (Inr (if del then [delete_change g] else []), w)"
  by (simp add: spec_helpers_def spec_maybe_delete_group_def)

lemma detect_present:
  assumes "\<not> execute ctx"
      and "adapter_fetch A (group_id (properties (self s))) org (provider (world s)) = Inr (Some g)"
  shows "apply_to_account (spec_helpers A now) org ctx s =
           (Inr \<lparr>account = idp_name (properties (self s)),
                 acd_resource_id = group_id (properties (self s)),
                 acd_current_value = Some g,
                 acd_new_value = apply_resource_dict (self s) org ctx,
                 proposed_changes =
                   name_diff g (name (properties (self s)))
                   @ description_diff g (description (properties (self s)))
                   @ members_diff g (pruneExpired now (members (properties (self s))))
                   @ (if evaluateLifecycle (expires_at (self s)) (deleted (self s)) now
                      then [delete_change g] else [])\<rparr>,
            s\<lparr>self := (self s)
                  \<lparr>deleted := evaluateLifecycle (expires_at (self s)) (deleted (self s)) now,
                   properties := (properties (self s))
                     \<lparr>members := pruneExpired now (members (properties (self s)))\<rparr>\<rparr>,
              world := (world s)\<lparr>adapter_calls := adapter_calls (world s) @ [Fetch org]\<rparr>,
              steps := steps s @ [Call (GetGroup org), Call RemoveExpiredResources,
                                  field_pass org]\<rparr>)"
proof -
  let ?w = "(world s)\<lparr>adapter_calls := adapter_calls (world s) @ [Fetch org]\<rparr>"
  let ?s1 = "s\<lparr>world := ?w, steps := steps s @ [Call (GetGroup org)]\<rparr>"
  let ?H = "spec_helpers A now"
  have g: "get_group ?H (group_id (properties (self s))) (name (properties (self s))) org
             (world s) = (Inr (Some g), ?w)"
    by (simp add: spec_get_group_eq assms(2))
  have r: "remove_expired_resources ?H (self ?s1) ctx (world ?s1)
             = (Inr ((self s)
                  \<lparr>deleted := evaluateLifecycle (expires_at (self s)) (deleted (self s)) now,
                   properties := (properties (self s))
                     \<lparr>members := pruneExpired now (members (properties (self s)))\<rparr>\<rparr>), ?w)"
    by (simp add: spec_remove_expired_eq)
  show ?thesis
    unfolding apply_to_account_present [OF g]
    by (subst reconcile_fields_run [OF r spec_detect_name [OF assms(1)]
          spec_detect_description [OF assms(1)] spec_detect_members [OF assms(1)]
          spec_detect_delete [OF assms(1)]])
       (simp add: assms(1))
qed

lemma detect_account:
  assumes "\<not> execute ctx"
  shows "only_fetched s (snd (apply_to_account (spec_helpers A now) org ctx s))"
proof -
  let ?H = "spec_helpers A now"
  let ?w = "(world s)\<lparr>adapter_calls := adapter_calls (world s) @ [Fetch org]\<rparr>"
  have g: "get_group ?H (group_id (properties (self s))) (name (properties (self s))) org
             (world s)
           = (adapter_fetch A (group_id (properties (self s))) org (provider (world s)), ?w)"
    by (simp add: spec_get_group_eq)
  show ?thesis
  proof (cases "adapter_fetch A (group_id (properties (self s))) org (provider (world s))")
    case (Inl e)
    with g show ?thesis
      by (simp add: apply_to_account_fetch_fails only_fetched_def)
  next
    case (Inr current_group)
    show ?thesis
    proof (cases current_group)
      case None
      with g Inr assms show ?thesis
        by (simp add: apply_to_account_absent_detect only_fetched_def)
    next
      case (Some grp)
      with Inr have "adapter_fetch A (group_id (properties (self s))) org (provider (world s))
                       = Inr (Some grp)" by simp
      from detect_present [OF assms this] show ?thesis
        by (simp add: only_fetched_def)
    qed
  qed
qed

text \<open>
  Claim C1. For every template, every adapter and every list of configured tenants, a
  run of \<^verbatim>\<open>apply\<close> whose context has \<^verbatim>\<open>execute\<close> false issues no create, update or
  delete adapter call: the adapter calls recorded are all fetches, the provider is left
  as it was, and the template file is not removed.
\<close>

theorem detect_mode_only_fetches:
  assumes "\<not> execute ctx"
  shows "only_fetched s (snd (apply_template (spec_helpers A now) config ctx s))"
proof -
  have "only_fetched s
          (snd (gather (map (\<lambda>org. apply_to_account (spec_helpers A now) org ctx)
                         (okta_organizations config)) s))"
    by (rule gather_only_fetched) (auto simp: detect_account [OF assms])
  then show ?thesis
    by (simp add: apply_template_def Let_def case_prod_beta split: sum.splits)
qed

theorem detect_mode_only_fetches_witness:
  "only_fetched (init_state eng_template [(org_a, eng_group)])
     (snd (apply_template (mem_helpers []) two_orgs detect
             (init_state eng_template [(org_a, eng_group)])))
   \<and> adapter_calls (world (snd (apply_template (mem_helpers []) two_orgs detect
             (init_state eng_template [(org_a, eng_group)])))) = [Fetch org_a, Fetch org_b]"
proof -
  have d: "\<not> execute detect" by (simp add: detect_def)
  have c: "adapter_calls (world (snd (apply_template (mem_helpers []) two_orgs detect
             (init_state eng_template [(org_a, eng_group)])))) = [Fetch org_a, Fetch org_b]"
    by (simp add: engine_defs helper_defs sample_defs)
  from detect_mode_only_fetches [OF d, of "init_state eng_template [(org_a, eng_group)]"
      "mem_adapter []" 0 two_orgs] c
  show ?thesis by (simp add: mem_helpers_def)
qed


section \<open>Deletion\<close>

lemma new_calls_append:
  "adapter_calls (world s') = adapter_calls (world s) @ cs \<Longrightarrow> new_calls s s' = cs"
  by (simp add: new_calls_def)

lemma spec_create_eq:
  "create_group (spec_helpers A now) nm idp d org ctx w = (r, w') \<Longrightarrow>
   adapter_calls w' = adapter_calls w @ [Create org] \<and> (\<forall>cg. r = Inr cg \<longrightarrow> cg \<noteq> None)"
  by (auto simp: spec_helpers_def spec_create_group_def issue_def split: prod.splits sum.splits)

lemma spec_exec_name_calls:
  "execute ctx \<Longrightarrow> update_group_name (spec_helpers A now) (Some g) v org ctx w = (r, w') \<Longrightarrow>
   adapter_calls w' = adapter_calls w @ [UpdateName org]"
  by (auto simp: spec_helpers_def spec_update_group_name_def issue_def split: prod.splits)

lemma spec_exec_description_calls:
  "execute ctx \<Longrightarrow>
   update_group_description (spec_helpers A now) (Some g) v org ctx w = (r, w') \<Longrightarrow>
   adapter_calls w' = adapter_calls w @ [UpdateDescription org]"
  by (auto simp: spec_helpers_def spec_update_group_description_def issue_def split: prod.splits)

lemma spec_exec_members_calls:
  "execute ctx \<Longrightarrow> update_group_members (spec_helpers A now) (Some g) v org ctx w = (r, w') \<Longrightarrow>
   adapter_calls w' = adapter_calls w @ [UpdateMembers org]"
  by (auto simp: spec_helpers_def spec_update_group_members_def issue_def split: prod.splits)

lemma spec_exec_delete_calls:
  "execute ctx \<Longrightarrow> maybe_delete_group (spec_helpers A now) del (Some g) org ctx w = (r, w') \<Longrightarrow>
   adapter_calls w' = adapter_calls w @ (if del then [Delete org] else [])"
  by (auto simp: spec_helpers_def spec_maybe_delete_group_def issue_def
      split: prod.splits if_splits)

lemma exec_fields:
  fixes A now org ctx g cd s0
  assumes x: "execute ctx"
  defines "R \<equiv> reconcile_fields (spec_helpers A now) org ctx (Some g) cd s0"
  shows "adapter_calls (world (snd R))
           = adapter_calls (world s0)
             @ [UpdateName org, UpdateDescription org, UpdateMembers org]
             @ (if deleted (self (snd R)) then [Delete org] else [])"
    and "file_deleted (snd R) = (file_deleted s0 \<or> (\<not> isl (fst R) \<and> deleted (self (snd R))))"
proof -
  let ?H = "spec_helpers A now"
  let ?t1 = "(self s0)\<lparr>deleted := evaluateLifecycle (expires_at (self s0)) (deleted (self s0)) now,
                 properties := (properties (self s0))
                   \<lparr>members := pruneExpired now (members (properties (self s0)))\<rparr>\<rparr>"
  have e0: "remove_expired_resources ?H (self s0) ctx (world s0) = (Inr ?t1, world s0)"
    by (simp add: spec_remove_expired_eq)
  obtain r1 w1
    where e1: "update_group_name ?H (Some g) (name (properties ?t1)) org ctx (world s0) = (r1, w1)"
    by force
  obtain r2 w2
    where e2: "update_group_description ?H (Some g) (description (properties ?t1)) org ctx w1
                 = (r2, w2)"
    by force
  obtain r3 w3
    where e3: "update_group_members ?H (Some g) (members (properties ?t1)) org ctx w2 = (r3, w3)"
    by force
  obtain r4 w4
    where e4: "maybe_delete_group ?H (deleted ?t1) (Some g) org ctx w3 = (r4, w4)"
    by force
  have c: "adapter_calls w4
             = adapter_calls (world s0)
               @ [UpdateName org, UpdateDescription org, UpdateMembers org]
               @ (if deleted ?t1 then [Delete org] else [])"
    using spec_exec_name_calls [OF x e1] spec_exec_description_calls [OF x e2]
      spec_exec_members_calls [OF x e3] spec_exec_delete_calls [OF x e4]
    by simp
  note run = reconcile_fields_run [OF e0 e1 e2 e3 e4, of cd]
  show "adapter_calls (world (snd R))
           = adapter_calls (world s0)
             @ [UpdateName org, UpdateDescription org, UpdateMembers org]
             @ (if deleted (self (snd R)) then [Delete org] else [])"
    unfolding R_def run using c by (simp split: sum.splits)
  show "file_deleted (snd R) = (file_deleted s0 \<or> (\<not> isl (fst R) \<and> deleted (self (snd R))))"
    unfolding R_def run using x by (simp split: sum.splits)
qed

text \<open>
  Claim C5, amended. The reconciliation of a tenant removes the template file only when
  \<^verbatim>\<open>execute\<close> is true, the template is marked deleted (by its flag or its expiry), no
  call of the tenant raised and the provider delete was issued; the provider delete is
  issued only when \<^verbatim>\<open>execute\<close> is true and the template is marked deleted. The
  \<^verbatim>\<open>force_delete\<close> flag is not consulted.
\<close>

theorem template_delete_conditions:
  fixes A now org ctx s
  assumes nf: "\<not> file_deleted s"
  defines "R \<equiv> apply_to_account (spec_helpers A now) org ctx s"
  shows "(file_deleted (snd R) \<longrightarrow>
            execute ctx \<and> deleted (self (snd R)) \<and> \<not> isl (fst R)
            \<and> Delete org \<in> set (new_calls s (snd R)))
         \<and> (Delete org \<in> set (new_calls s (snd R)) \<longrightarrow>
              execute ctx \<and> deleted (self (snd R)))"
proof (cases "execute ctx")
  case False
  from detect_account [OF False, of s A now org]
  have o: "only_fetched s (snd R)" by (simp add: R_def)
  then have "\<not> file_deleted (snd R)" using nf by (simp add: only_fetched_def)
  moreover have "Delete org \<notin> set (new_calls s (snd R))"
    using o by (auto simp: only_fetched_def new_calls_def list_all_iff)
  ultimately show ?thesis by simp
next
  case True
  let ?H = "spec_helpers A now"
  let ?gid = "group_id (properties (self s))" and ?nm = "name (properties (self s))"
  let ?w = "(world s)\<lparr>adapter_calls := adapter_calls (world s) @ [Fetch org]\<rparr>"
  have g: "get_group ?H ?gid ?nm org (world s)
             = (adapter_fetch A ?gid org (provider (world s)), ?w)"
    by (simp add: spec_get_group_eq)
  show ?thesis
  proof (cases "adapter_fetch A ?gid org (provider (world s))")
    case (Inl e)
    with g have "R = (Inl e, s\<lparr>world := ?w, steps := steps s @ [Call (GetGroup org)]\<rparr>)"
      by (simp add: R_def apply_to_account_fetch_fails)
    then show ?thesis using nf by (simp add: new_calls_def)
  next
    case (Inr current_group)
    show ?thesis
    proof (cases current_group)
      case (Some grp)
      let ?s1 = "s\<lparr>world := ?w, steps := steps s @ [Call (GetGroup org)]\<rparr>"
      let ?cd = "\<lparr>account = idp_name (properties (self s)),
                 acd_resource_id = group_id (properties (self s)),
                 acd_current_value = Some grp,
                 acd_new_value = apply_resource_dict (self s) org ctx,
                 proposed_changes = []\<rparr>"
      from g Inr Some have e: "R = reconcile_fields ?H org ctx (Some grp) ?cd ?s1"
        by (simp add: R_def apply_to_account_present)
      have c: "new_calls s (snd R)
                 = [Fetch org, UpdateName org, UpdateDescription org, UpdateMembers org]
                   @ (if deleted (self (snd R)) then [Delete org] else [])"
        by (rule new_calls_append) (simp add: e exec_fields(1) [OF True])
      have f: "file_deleted (snd R) = (\<not> isl (fst R) \<and> deleted (self (snd R)))"
        using nf by (simp add: e exec_fields(2) [OF True])
      show ?thesis using True by (simp add: c f)
    next
      case None
      obtain r2 w2 where cr: "create_group ?H ?nm (idp_name (properties (self s)))
             (description (properties (self s))) org ctx ?w = (r2, w2)"
        by force
      note cc = spec_create_eq [OF cr]
      show ?thesis
      proof (cases r2)
        case (Inl e)
        with g Inr None True cr
        have "R = (Inl e, s\<lparr>world := w2,
                     steps := steps s @ [Call (GetGroup org), Call (CreateGroup org)]\<rparr>)"
          by (simp add: R_def apply_to_account_create_fails)
        then show ?thesis using nf cc by (simp add: new_calls_def)
      next
        case created: (Inr cg)
        with cc obtain grp where cg: "cg = Some grp" by auto
        let ?s2 = "s\<lparr>world := w2,
                     steps := steps s @ [Call (GetGroup org), Call (CreateGroup org)]\<rparr>"
        let ?cd = "\<lparr>account = idp_name (properties (self s)),
                   acd_resource_id = group_id (properties (self s)),
                   acd_current_value = cg,
                   acd_new_value = apply_resource_dict (self s) org ctx,
                   proposed_changes = [create_change (self s)]\<rparr>"
        from g Inr None True cr created
        have e: "R = reconcile_fields ?H org ctx (Some grp) ?cd ?s2"
          by (simp add: R_def apply_to_account_created cg)
        have c: "new_calls s (snd R)
                   = [Fetch org, Create org, UpdateName org, UpdateDescription org,
                      UpdateMembers org]
                     @ (if deleted (self (snd R)) then [Delete org] else [])"
          by (rule new_calls_append) (simp add: e exec_fields(1) [OF True] cc)
        have f: "file_deleted (snd R) = (\<not> isl (fst R) \<and> deleted (self (snd R)))"
          using nf by (simp add: e exec_fields(2) [OF True])
        show ?thesis using True by (simp add: c f)
      qed
    qed
  qed
qed


lemmas retired_defs = retired_start_def retired_template_def one_org_def

text \<open>
  Claim C5, as stated, fails: a template marked deleted with \<^verbatim>\<open>force_delete\<close> false,
  applied in execute mode to a tenant where the group exists, has its file removed and
  its group deleted at the provider.
\<close>

theorem template_delete_counterexample:
  "\<not> force_delete (self retired_start)
   \<and> \<not> file_deleted retired_start
   \<and> file_deleted (snd (apply_template (mem_helpers []) one_org enact retired_start))
   \<and> \<not> force_delete (self (snd (apply_template (mem_helpers []) one_org enact retired_start)))
   \<and> Delete org_a \<in> set (adapter_calls (world (snd
         (apply_template (mem_helpers []) one_org enact retired_start))))
   \<and> provider (world (snd (apply_template (mem_helpers []) one_org enact retired_start))) = []"
  by (simp add: retired_defs engine_defs helper_defs sample_defs)

theorem template_delete_conditions_witness:
  "file_deleted (snd (apply_to_account (mem_helpers []) org_a enact retired_start))
   \<and> execute enact
   \<and> deleted (self (snd (apply_to_account (mem_helpers []) org_a enact retired_start)))
   \<and> \<not> isl (fst (apply_to_account (mem_helpers []) org_a enact retired_start))
   \<and> Delete org_a \<in> set (new_calls retired_start
         (snd (apply_to_account (mem_helpers []) org_a enact retired_start)))"
proof -
  have nf: "\<not> file_deleted retired_start"
    by (simp add: retired_defs init_state_def)
  have fd: "file_deleted (snd (apply_to_account (mem_helpers []) org_a enact retired_start))"
    by (simp add: retired_defs engine_defs helper_defs sample_defs)
  from template_delete_conditions [OF nf, of "mem_adapter []" 0 org_a enact] fd
  show ?thesis by (simp add: mem_helpers_def)
qed

section \<open>Detect mode against apply mode\<close>

text \<open>
  Claim C2, as stated, fails: from the same state, with the group absent and one desired
  member, detect mode proposes the CREATE alone, and apply mode the CREATE and the UPDATE
  of the members of the group it has created.
\<close>

theorem mode_equivalence_counterexample:
  "map change_type (proposed_changes (projr (fst
      (apply_to_account (mem_helpers []) org_a detect (init_state eng_template [])))))
     = [CREATE]
   \<and> map change_type (proposed_changes (projr (fst
      (apply_to_account (mem_helpers []) org_a enact (init_state eng_template [])))))
     = [CREATE, UPDATE]
   \<and> set (proposed_changes (projr (fst
      (apply_to_account (mem_helpers []) org_a detect (init_state eng_template [])))))
     \<noteq> set (proposed_changes (projr (fst
      (apply_to_account (mem_helpers []) org_a enact (init_state eng_template [])))))"
  by (simp add: engine_defs helper_defs sample_defs)

lemma spec_exec_name_fst:
  "execute ctx \<Longrightarrow> update_group_name (spec_helpers A now) (Some g) v org ctx w = (r, w') \<Longrightarrow>
   r = fst (adapter_update_name A g v org (provider w))"
  by (auto simp: spec_helpers_def spec_update_group_name_def issue_def split: prod.splits)

lemma spec_exec_description_fst:
  "execute ctx \<Longrightarrow>
   update_group_description (spec_helpers A now) (Some g) v org ctx w = (r, w') \<Longrightarrow>
   r = fst (adapter_update_description A g v org (provider w))"
  by (auto simp: spec_helpers_def spec_update_group_description_def issue_def split: prod.splits)

lemma spec_exec_members_fst:
  "execute ctx \<Longrightarrow> update_group_members (spec_helpers A now) (Some g) v org ctx w = (r, w') \<Longrightarrow>
   r = fst (adapter_update_members A g v org (provider w))"
  by (auto simp: spec_helpers_def spec_update_group_members_def issue_def split: prod.splits)

lemma spec_exec_delete_fst:
  "execute ctx \<Longrightarrow> maybe_delete_group (spec_helpers A now) del (Some g) org ctx w = (r, w') \<Longrightarrow>
   r = (if del then fst (adapter_delete A g org (provider w)) else Inr [])"
  by (auto simp: spec_helpers_def spec_maybe_delete_group_def issue_def
      split: prod.splits if_splits)

lemma exec_present:
  assumes x: "execute ctx"
      and f: "adapter_fetch A (group_id (properties (self s))) org (provider (world s))
                = Inr (Some g)"
      and n: "\<And>v p. fst (adapter_update_name A g v org p) = Inr (name_diff g v)"
      and d: "\<And>v p. fst (adapter_update_description A g v org p) = Inr (description_diff g v)"
      and m: "\<And>v p. fst (adapter_update_members A g v org p) = Inr (members_diff g v)"
      and del: "\<And>p. fst (adapter_delete A g org p) = Inr [delete_change g]"
  shows "fst (apply_to_account (spec_helpers A now) org ctx s) =
           Inr \<lparr>account = idp_name (properties (self s)),
                acd_resource_id = group_id (properties (self s)),
                acd_current_value = Some g,
                acd_new_value = apply_resource_dict (self s) org ctx,
                proposed_changes =
                  name_diff g (name (properties (self s)))
                  @ description_diff g (description (properties (self s)))
                  @ members_diff g (pruneExpired now (members (properties (self s))))
                  @ (if evaluateLifecycle (expires_at (self s)) (deleted (self s)) now
                     then [delete_change g] else [])\<rparr>"
proof -
  let ?H = "spec_helpers A now"
  let ?w = "(world s)\<lparr>adapter_calls := adapter_calls (world s) @ [Fetch org]\<rparr>"
  let ?s1 = "s\<lparr>world := ?w, steps := steps s @ [Call (GetGroup org)]\<rparr>"
  let ?t1 = "(self s)\<lparr>deleted := evaluateLifecycle (expires_at (self s)) (deleted (self s)) now,
                 properties := (properties (self s))
                   \<lparr>members := pruneExpired now (members (properties (self s)))\<rparr>\<rparr>"
  have g: "get_group ?H (group_id (properties (self s))) (name (properties (self s))) org
             (world s) = (Inr (Some g), ?w)"
    by (simp add: spec_get_group_eq f)
  have e0: "remove_expired_resources ?H (self ?s1) ctx (world ?s1) = (Inr ?t1, ?w)"
    by (simp add: spec_remove_expired_eq)
  obtain r1 w1
    where e1: "update_group_name ?H (Some g) (name (properties ?t1)) org ctx ?w = (r1, w1)"
    by force
  obtain r2 w2
    where e2: "update_group_description ?H (Some g) (description (properties ?t1)) org ctx w1
                 = (r2, w2)"
    by force
  obtain r3 w3
    where e3: "update_group_members ?H (Some g) (members (properties ?t1)) org ctx w2 = (r3, w3)"
    by force
  obtain r4 w4
    where e4: "maybe_delete_group ?H (deleted ?t1) (Some g) org ctx w3 = (r4, w4)"
    by force
  have r1: "r1 = Inr (name_diff g (name (properties (self s))))"
    using spec_exec_name_fst [OF x e1] by (simp add: n)
  have r2: "r2 = Inr (description_diff g (description (properties (self s))))"
    using spec_exec_description_fst [OF x e2] by (simp add: d)
  have r3: "r3 = Inr (members_diff g (pruneExpired now (members (properties (self s)))))"
    using spec_exec_members_fst [OF x e3] by (simp add: m)
  have r4: "r4 = Inr (if evaluateLifecycle (expires_at (self s)) (deleted (self s)) now
                      then [delete_change g] else [])"
    using spec_exec_delete_fst [OF x e4] by (simp add: del)
  show ?thesis
    unfolding apply_to_account_present [OF g] reconcile_fields_run [OF e0 e1 e2 e3 e4]
    by (simp add: r1 r2 r3 r4)
qed

text \<open>
  Claim C2, amended. When the fetch reports the group present, and the update and delete
  calls of the adapter succeed and report the diff of their arguments, the per-tenant
  reconciler returns the same list of proposed changes in apply mode and in detect mode,
  from the same state.
\<close>

theorem mode_equivalence_present:
  assumes "execute ctx1" and "\<not> execute ctx2"
      and "adapter_fetch A (group_id (properties (self s))) org (provider (world s))
             = Inr (Some g)"
      and "\<And>v p. fst (adapter_update_name A g v org p) = Inr (name_diff g v)"
      and "\<And>v p. fst (adapter_update_description A g v org p) = Inr (description_diff g v)"
      and "\<And>v p. fst (adapter_update_members A g v org p) = Inr (members_diff g v)"
      and "\<And>p. fst (adapter_delete A g org p) = Inr [delete_change g]"
  shows "\<not> isl (fst (apply_to_account (spec_helpers A now) org ctx1 s))
         \<and> \<not> isl (fst (apply_to_account (spec_helpers A now) org ctx2 s))
         \<and> proposed_changes (projr (fst (apply_to_account (spec_helpers A now) org ctx1 s)))
           = proposed_changes (projr (fst (apply_to_account (spec_helpers A now) org ctx2 s)))"
  by (simp add: exec_present [OF assms(1) assms(3-7)] detect_present [OF assms(2) assms(3)])

theorem mode_equivalence_present_witness:
  "map change_type (proposed_changes (projr (fst (apply_to_account (mem_helpers []) org_a enact
          (init_state eng_template [(org_a, stale_group)])))))
     = [UPDATE, UPDATE]
   \<and> proposed_changes (projr (fst (apply_to_account (mem_helpers []) org_a enact
          (init_state eng_template [(org_a, stale_group)]))))
     = proposed_changes (projr (fst (apply_to_account (mem_helpers []) org_a detect
          (init_state eng_template [(org_a, stale_group)]))))"
proof -
  have x: "execute enact" and nx: "\<not> execute detect"
    by (simp_all add: enact_def detect_def)
  have f: "adapter_fetch (mem_adapter [])
             (group_id (properties (self (init_state eng_template [(org_a, stale_group)]))))
             org_a (provider (world (init_state eng_template [(org_a, stale_group)])))
           = Inr (Some stale_group)"
    by (simp add: mem_adapter_def init_state_def)
  have n: "\<And>v p. fst (adapter_update_name (mem_adapter []) stale_group v org_a p)
                   = Inr (name_diff stale_group v)"
    and d: "\<And>v p. fst (adapter_update_description (mem_adapter []) stale_group v org_a p)
                   = Inr (description_diff stale_group v)"
    and m: "\<And>v p. fst (adapter_update_members (mem_adapter []) stale_group v org_a p)
                   = Inr (members_diff stale_group v)"
    and del: "\<And>p. fst (adapter_delete (mem_adapter []) stale_group org_a p)
                   = Inr [delete_change stale_group]"
    by (simp_all add: mem_adapter_def guarded_def)
  have c: "map change_type (proposed_changes (projr (fst (apply_to_account (mem_helpers [])
             org_a enact (init_state eng_template [(org_a, stale_group)]))))) = [UPDATE, UPDATE]"
    by (simp add: stale_group_def engine_defs helper_defs sample_defs)
  from mode_equivalence_present [OF x nx f n d m del, of 0] c
  show ?thesis by (simp add: mem_helpers_def)
qed

section \<open>A template in sync with the provider\<close>

lemma pruneExpired_idem: "pruneExpired now (pruneExpired now ms) = pruneExpired now ms"
  by (simp add: pruneExpired_def)

lemma settled_pruned:
  assumes "settled now t0 t"
  shows "settled now t0
           (t\<lparr>deleted := evaluateLifecycle (expires_at t) (deleted t) now,
              properties := (properties t)
                \<lparr>members := pruneExpired now (members (properties t))\<rparr>\<rparr>)"
  using assms by (simp add: settled_def pruneExpired_idem evaluateLifecycle_def)

lemma spec_exec_name_eq:
  "execute ctx \<Longrightarrow>
   update_group_name (spec_helpers A now) (Some g) v org ctx w
     = (fst (adapter_update_name A g v org (provider w)),
        w\<lparr>provider := snd (adapter_update_name A g v org (provider w)),
          adapter_calls := adapter_calls w @ [UpdateName org]\<rparr>)"
  by (simp add: spec_helpers_def spec_update_group_name_def issue_def case_prod_beta)

lemma spec_exec_description_eq:
  "execute ctx \<Longrightarrow>
   update_group_description (spec_helpers A now) (Some g) v org ctx w
     = (fst (adapter_update_description A g v org (provider w)),
        w\<lparr>provider := snd (adapter_update_description A g v org (provider w)),
          adapter_calls := adapter_calls w @ [UpdateDescription org]\<rparr>)"
  by (simp add: spec_helpers_def spec_update_group_description_def issue_def case_prod_beta)

lemma spec_exec_members_eq:
  "execute ctx \<Longrightarrow>
   update_group_members (spec_helpers A now) (Some g) v org ctx w
     = (fst (adapter_update_members A g v org (provider w)),
        w\<lparr>provider := snd (adapter_update_members A g v org (provider w)),
          adapter_calls := adapter_calls w @ [UpdateMembers org]\<rparr>)"
  by (simp add: spec_helpers_def spec_update_group_members_def issue_def case_prod_beta)

lemma spec_not_deleted:
  "maybe_delete_group (spec_helpers A now) False cg org ctx w = (Inr [], w)"
  by (simp add: spec_helpers_def spec_maybe_delete_group_def)

lemma exec_in_sync:
  fixes A now org ctx s t0 g Inv
  assumes x: "execute ctx"
      and i: "Inv (provider (world s))"
      and st: "settled now t0 (self s)"
      and fe: "adapter_fetch A (group_id (properties t0)) org (provider (world s)) = Inr (Some g)"
      and n: "\<And>p. Inv p \<Longrightarrow>
                fst (adapter_update_name A g (name (properties t0)) org p) = Inr []
                \<and> Inv (snd (adapter_update_name A g (name (properties t0)) org p))"
      and d: "\<And>p. Inv p \<Longrightarrow>
                fst (adapter_update_description A g (description (properties t0)) org p) = Inr []
                \<and> Inv (snd (adapter_update_description A g (description (properties t0)) org p))"
      and m: "\<And>p. Inv p \<Longrightarrow>
                fst (adapter_update_members A g
                       (pruneExpired now (members (properties t0))) org p) = Inr []
                \<and> Inv (snd (adapter_update_members A g
                              (pruneExpired now (members (properties t0))) org p))"
  defines "R \<equiv> apply_to_account (spec_helpers A now) org ctx s"
  shows "\<exists>cd. fst R = Inr cd \<and> proposed_changes cd = []"
    and "Inv (provider (world (snd R)))"
    and "settled now t0 (self (snd R))"
proof -
  let ?H = "spec_helpers A now"
  let ?w = "(world s)\<lparr>adapter_calls := adapter_calls (world s) @ [Fetch org]\<rparr>"
  let ?s1 = "s\<lparr>world := ?w, steps := steps s @ [Call (GetGroup org)]\<rparr>"
  let ?t1 = "(self s)\<lparr>deleted := evaluateLifecycle (expires_at (self s)) (deleted (self s)) now,
                 properties := (properties (self s))
                   \<lparr>members := pruneExpired now (members (properties (self s)))\<rparr>\<rparr>"
  let ?cd = "\<lparr>account = idp_name (properties (self s)),
             acd_resource_id = group_id (properties (self s)),
             acd_current_value = Some g,
             acd_new_value = apply_resource_dict (self s) org ctx,
             proposed_changes = []\<rparr>"
  from st have gid: "group_id (properties (self s)) = group_id (properties t0)"
    and nd: "\<not> deleted ?t1"
    and nm: "name (properties ?t1) = name (properties t0)"
    and ds: "description (properties ?t1) = description (properties t0)"
    and ms: "members (properties ?t1) = pruneExpired now (members (properties t0))"
    by (simp_all add: settled_def)
  have g: "get_group ?H (group_id (properties (self s))) (name (properties (self s))) org
             (world s) = (Inr (Some g), ?w)"
    by (simp add: spec_get_group_eq fe gid)
  have e0: "remove_expired_resources ?H (self ?s1) ctx (world ?s1) = (Inr ?t1, ?w)"
    by (simp add: spec_remove_expired_eq)
  let ?X1 = "adapter_update_name A g (name (properties t0)) org (provider ?w)"
  let ?w1 = "?w\<lparr>provider := snd ?X1, adapter_calls := adapter_calls ?w @ [UpdateName org]\<rparr>"
  let ?X2 = "adapter_update_description A g (description (properties t0)) org (provider ?w1)"
  let ?w2 = "?w1\<lparr>provider := snd ?X2,
                  adapter_calls := adapter_calls ?w1 @ [UpdateDescription org]\<rparr>"
  let ?X3 = "adapter_update_members A g (pruneExpired now (members (properties t0))) org
               (provider ?w2)"
  let ?w3 = "?w2\<lparr>provider := snd ?X3, adapter_calls := adapter_calls ?w2 @ [UpdateMembers org]\<rparr>"
  have i0: "Inv (provider ?w)" using i by simp
  from n [OF i0] have r1: "fst ?X1 = Inr []" and i1: "Inv (provider ?w1)" by simp_all
  from d [OF i1] have r2: "fst ?X2 = Inr []" and i2: "Inv (provider ?w2)" by simp_all
  from m [OF i2] have r3: "fst ?X3 = Inr []" and i3: "Inv (provider ?w3)" by simp_all
  have e1: "update_group_name ?H (Some g) (name (properties ?t1)) org ctx ?w = (Inr [], ?w1)"
    unfolding nm
    using spec_exec_name_eq [OF x, of A now g "name (properties t0)" org ?w] r1 by simp
  have e2: "update_group_description ?H (Some g) (description (properties ?t1)) org ctx ?w1
              = (Inr [], ?w2)"
    unfolding ds
    using spec_exec_description_eq [OF x, of A now g "description (properties t0)" org ?w1] r2
    by simp
  have e3: "update_group_members ?H (Some g) (members (properties ?t1)) org ctx ?w2
              = (Inr [], ?w3)"
    unfolding ms
    using spec_exec_members_eq [OF x, of A now g "pruneExpired now (members (properties t0))"
        org ?w2] r3
    by simp
  have e4: "maybe_delete_group ?H (deleted ?t1) (Some g) org ctx ?w3 = (Inr [], ?w3)"
    using nd by (simp add: spec_not_deleted)
  have run: "R = (Inr ?cd,
                  ?s1\<lparr>self := ?t1, world := ?w3,
                      steps := steps ?s1 @ [Call RemoveExpiredResources, field_pass org]\<rparr>)"
    unfolding R_def apply_to_account_present [OF g] reconcile_fields_run [OF e0 e1 e2 e3 e4]
    using nd by simp
  show "\<exists>cd. fst R = Inr cd \<and> proposed_changes cd = []"
    unfolding run by simp
  show "Inv (provider (world (snd R)))"
    unfolding run using i3 by simp
  show "settled now t0 (self (snd R))"
    unfolding run using settled_pruned [OF st] by simp
qed

lemma collect_all_empty:
  assumes "\<forall>r \<in> set rs. \<exists>cd. r = Inr cd \<and> proposed_changes cd = []"
  shows "\<exists>acs. collect rs = Inr acs \<and> filter (\<lambda>ac. proposed_changes ac \<noteq> []) acs = []"
  using assms
proof (induction rs)
  case Nil
  then show ?case by simp
next
  case (Cons r rs)
  then obtain cd acs where "r = Inr cd" "proposed_changes cd = []"
    "collect rs = Inr acs" "filter (\<lambda>ac. proposed_changes ac \<noteq> []) acs = []"
    by auto
  then show ?case by simp
qed

lemma outcomes_in_sync:
  fixes A now ctx t0 Inv
  assumes x: "execute ctx"
      and f: "\<And>org p. org \<in> set orgs \<Longrightarrow> Inv p \<Longrightarrow>
                \<exists>g. adapter_fetch A (group_id (properties t0)) org p = Inr (Some g)
                    \<and> in_sync now t0 g"
      and n: "\<And>g org p. Inv p \<Longrightarrow> in_sync now t0 g \<Longrightarrow>
                fst (adapter_update_name A g (name (properties t0)) org p) = Inr []
                \<and> Inv (snd (adapter_update_name A g (name (properties t0)) org p))"
      and d: "\<And>g org p. Inv p \<Longrightarrow> in_sync now t0 g \<Longrightarrow>
                fst (adapter_update_description A g (description (properties t0)) org p) = Inr []
                \<and> Inv (snd (adapter_update_description A g (description (properties t0)) org p))"
      and m: "\<And>g org p. Inv p \<Longrightarrow> in_sync now t0 g \<Longrightarrow>
                fst (adapter_update_members A g
                       (pruneExpired now (members (properties t0))) org p) = Inr []
                \<and> Inv (snd (adapter_update_members A g
                              (pruneExpired now (members (properties t0))) org p))"
      and i: "Inv (provider (world s))"
      and st: "settled now t0 (self s)"
  shows "\<forall>r \<in> set (tenant_outcomes (spec_helpers A now) ctx orgs s).
           \<exists>cd. r = Inr cd \<and> proposed_changes cd = []"
  using f i st
proof (induction orgs arbitrary: s)
  case Nil
  then show ?case by (simp add: tenant_outcomes_def)
next
  case (Cons org orgs)
  let ?s = "s\<lparr>steps := []\<rparr>"
  have i0: "Inv (provider (world ?s))" and st0: "settled now t0 (self ?s)"
    using Cons.prems(2,3) by simp_all
  from Cons.prems(1) [of org, OF _ i0] obtain g
    where fe: "adapter_fetch A (group_id (properties t0)) org (provider (world ?s))
                 = Inr (Some g)"
      and sy: "in_sync now t0 g"
    by auto
  note step = exec_in_sync [of ctx Inv ?s now t0 A org g,
      OF x i0 st0 fe n [OF _ sy] d [OF _ sy] m [OF _ sy]]
  have rest: "\<forall>r \<in> set (tenant_outcomes (spec_helpers A now) ctx orgs
                  (snd (apply_to_account (spec_helpers A now) org ctx ?s))).
                \<exists>cd. r = Inr cd \<and> proposed_changes cd = []"
    by (rule Cons.IH) (use Cons.prems(1) step(2,3) in auto)
  show ?case
    unfolding tenant_outcomes_Cons using step(1) rest by simp
qed

text \<open>
  Outside the case of a template marked deleted, a run in execute mode is idempotent: when
  the template is not marked deleted, the fetch of every configured tenant returns a group
  in sync with it, and the adapter reports no change, and stays within an invariant of the
  provider, when asked for what a group in sync already has, the run returns a report
  without tenant changes.
\<close>

theorem in_sync_apply_is_empty:
  fixes A now ctx s Inv config
  assumes "execute ctx"
      and "\<And>org p. org \<in> set (okta_organizations config) \<Longrightarrow> Inv p \<Longrightarrow>
             \<exists>g. adapter_fetch A (group_id (properties (self s))) org p = Inr (Some g)
                 \<and> in_sync now (self s) g"
      and "\<And>g org p. Inv p \<Longrightarrow> in_sync now (self s) g \<Longrightarrow>
             fst (adapter_update_name A g (name (properties (self s))) org p) = Inr []
             \<and> Inv (snd (adapter_update_name A g (name (properties (self s))) org p))"
      and "\<And>g org p. Inv p \<Longrightarrow> in_sync now (self s) g \<Longrightarrow>
             fst (adapter_update_description A g (description (properties (self s))) org p)
               = Inr []
             \<and> Inv (snd (adapter_update_description A g
                           (description (properties (self s))) org p))"
      and "\<And>g org p. Inv p \<Longrightarrow> in_sync now (self s) g \<Longrightarrow>
             fst (adapter_update_members A g
                    (pruneExpired now (members (properties (self s)))) org p) = Inr []
             \<and> Inv (snd (adapter_update_members A g
                           (pruneExpired now (members (properties (self s)))) org p))"
      and "Inv (provider (world s))"
      and "\<not> evaluateLifecycle (expires_at (self s)) (deleted (self s)) now"
  shows "\<not> isl (fst (apply_template (spec_helpers A now) config ctx s))
         \<and> tcd_proposed_changes
             (projr (fst (apply_template (spec_helpers A now) config ctx s))) = []"
proof -
  have st: "settled now (self s) (self s)"
    using assms(7) by (simp add: settled_def)
  have "\<forall>r \<in> set (tenant_outcomes (spec_helpers A now) ctx (okta_organizations config) s).
          \<exists>cd. r = Inr cd \<and> proposed_changes cd = []"
    by (rule outcomes_in_sync [OF assms(1-6) st])
  from collect_all_empty [OF this] show ?thesis
    by (auto simp: apply_template_outcomes)
qed

lemma sample_name_noop: "p = [(org_a, eng_group)] \<Longrightarrow> in_sync 0 (self (init_state eng_template [(org_a, eng_group)])) g \<Longrightarrow>
             fst (adapter_update_name (mem_adapter []) g (name (properties (self (init_state eng_template [(org_a, eng_group)])))) org p)
               = Inr []
             \<and> (snd (adapter_update_name (mem_adapter []) g
                            (name (properties (self (init_state eng_template [(org_a, eng_group)])))) org p)) = [(org_a, eng_group)]"
    by (simp add: mem_adapter_def guarded_def mem_set_def in_sync_def init_state_def
        eng_template_def eng_group_def name_diff_def)

lemma sample_description_noop: "p = [(org_a, eng_group)] \<Longrightarrow> in_sync 0 (self (init_state eng_template [(org_a, eng_group)])) g \<Longrightarrow>
             fst (adapter_update_description (mem_adapter []) g
                    (description (properties (self (init_state eng_template [(org_a, eng_group)])))) org p) = Inr []
             \<and> (snd (adapter_update_description (mem_adapter []) g
                            (description (properties (self (init_state eng_template [(org_a, eng_group)])))) org p)) = [(org_a, eng_group)]"
    by (simp add: mem_adapter_def guarded_def mem_set_def in_sync_def init_state_def
        eng_template_def eng_group_def description_diff_def)

lemma sample_members_noop: "p = [(org_a, eng_group)] \<Longrightarrow> in_sync 0 (self (init_state eng_template [(org_a, eng_group)])) g \<Longrightarrow>
             fst (adapter_update_members (mem_adapter []) g
                    (pruneExpired 0 (members (properties (self (init_state eng_template [(org_a, eng_group)]))))) org p) = Inr []
             \<and> (snd (adapter_update_members (mem_adapter []) g
                            (pruneExpired 0 (members (properties (self (init_state eng_template [(org_a, eng_group)]))))) org p)) = [(org_a, eng_group)]"
    by (simp add: mem_adapter_def guarded_def mem_set_def in_sync_def init_state_def
        eng_template_def eng_group_def members_diff_def pruneExpired_Nil pruneExpired_Cons
        evaluateLifecycle_def alice_def)


lemma sample_fetch_in_sync: "org \<in> set (okta_organizations one_org) \<Longrightarrow> p = [(org_a, eng_group)] \<Longrightarrow>
             \<exists>g. adapter_fetch (mem_adapter []) (group_id (properties (self (init_state eng_template [(org_a, eng_group)])))) org p
                   = Inr (Some g)
                 \<and> in_sync 0 (self (init_state eng_template [(org_a, eng_group)])) g"
    by (simp add: one_org_def mem_adapter_def in_sync_def init_state_def eng_template_def
        eng_group_def pruneExpired_Nil pruneExpired_Cons evaluateLifecycle_def alice_def)

lemma in_sync_apply_is_empty_sample:
  "tcd_proposed_changes (projr (fst (apply_template (mem_helpers []) one_org enact
      (init_state eng_template [(org_a, eng_group)])))) = []"
  unfolding mem_helpers_def
proof (rule conjunct2 [OF in_sync_apply_is_empty [where Inv = "\<lambda>p. p = [(org_a, eng_group)]"]])
  show "execute enact" by (simp add: enact_def)
  show "provider (world (init_state eng_template [(org_a, eng_group)])) = [(org_a, eng_group)]"
    by (simp add: init_state_def)
  show "\<not> evaluateLifecycle (expires_at (self (init_state eng_template [(org_a, eng_group)])))
            (deleted (self (init_state eng_template [(org_a, eng_group)]))) 0"
    by (simp add: init_state_def eng_template_def evaluateLifecycle_def)
qed (rule sample_fetch_in_sync sample_name_noop sample_description_noop sample_members_noop; assumption)+

section \<open>Applying twice\<close>

text \<open>
  Claim C8. A template marked deleted, applied in execute mode to a tenant where its
  group exists, leaves the provider without the group; a second run in execute mode from
  the state the first has left does not return an empty report: it proposes, and enacts,
  the CREATE of the group, the UPDATE of its members and its DELETE. The reconciler
  appends the CREATE whenever the fetch reports the group absent, whether or not the
  template is marked deleted.
\<close>

theorem reapply_retired_template:
  "provider (world (snd (apply_template (mem_helpers []) one_org enact retired_start))) = []
   \<and> map (map change_type \<circ> proposed_changes)
       (tcd_proposed_changes (projr (fst
          (apply_template (mem_helpers []) one_org enact
             (snd (apply_template (mem_helpers []) one_org enact retired_start))))))
     = [[CREATE, UPDATE, DELETE]]"
  by (simp add: retired_defs engine_defs helper_defs sample_defs)

end
